theory Spec2Isabelle
  imports Complex_Main
begin

section \<open>Python values\<close>

text \<open>
  The exceptions (all subclasses of Python's \<open>Exception\<close>) that the modelled code can
  raise. \<open>ExternalError\<close> stands for whatever an external collaborator raises.
\<close>

datatype error =
    IndexError
  | AttributeError
  | TypeError
  | ValueError
  | StopIteration
  | ExternalError string

text \<open>
  A Python/numpy float: a finite number, the two infinities, or not-a-number. Finite
  arithmetic is exact (rounding and overflow of IEEE doubles are not modelled).
\<close>

datatype pyfloat = Fin real | PInf | NInf | NaN

fun isfinite :: "pyfloat \<Rightarrow> bool" where
  "isfinite (Fin _) = True"
| "isfinite _ = False"

fun isnan :: "pyfloat \<Rightarrow> bool" where
  "isnan NaN = True"
| "isnan _ = False"

text \<open>The comparison \<open>a < b\<close> of floats; every comparison with NaN is false.\<close>

fun py_lt :: "pyfloat \<Rightarrow> pyfloat \<Rightarrow> bool" where
  "py_lt NaN _ = False"
| "py_lt _ NaN = False"
| "py_lt (Fin a) (Fin b) = (a < b)"
| "py_lt NInf NInf = False"
| "py_lt NInf _ = True"
| "py_lt _ NInf = False"
| "py_lt PInf _ = False"
| "py_lt _ PInf = True"

text \<open>\<open>a == b\<close> on floats: NaN equals nothing, not even itself.\<close>

fun py_eq :: "pyfloat \<Rightarrow> pyfloat \<Rightarrow> bool" where
  "py_eq NaN _ = False"
| "py_eq _ NaN = False"
| "py_eq a b = (a = b)"

definition py_le :: "pyfloat \<Rightarrow> pyfloat \<Rightarrow> bool" where
  "py_le a b = (py_lt a b \<or> py_eq a b)"

text \<open>
  Python's builtin \<open>min(a, b)\<close> and \<open>max(a, b)\<close>: the first argument is kept unless the
  second is strictly smaller (larger).
\<close>

definition py_min :: "pyfloat \<Rightarrow> pyfloat \<Rightarrow> pyfloat" where
  "py_min a b = (if py_lt b a then b else a)"

definition py_max :: "pyfloat \<Rightarrow> pyfloat \<Rightarrow> pyfloat" where
  "py_max a b = (if py_lt a b then b else a)"

fun py_neg :: "pyfloat \<Rightarrow> pyfloat" where
  "py_neg (Fin a) = Fin (- a)"
| "py_neg PInf = NInf"
| "py_neg NInf = PInf"
| "py_neg NaN = NaN"

fun py_abs :: "pyfloat \<Rightarrow> pyfloat" where
  "py_abs (Fin a) = Fin \<bar>a\<bar>"
| "py_abs PInf = PInf"
| "py_abs NInf = PInf"
| "py_abs NaN = NaN"

fun py_add :: "pyfloat \<Rightarrow> pyfloat \<Rightarrow> pyfloat" where
  "py_add NaN _ = NaN"
| "py_add _ NaN = NaN"
| "py_add (Fin a) (Fin b) = Fin (a + b)"
| "py_add PInf NInf = NaN"
| "py_add NInf PInf = NaN"
| "py_add PInf _ = PInf"
| "py_add NInf _ = NInf"
| "py_add _ PInf = PInf"
| "py_add _ NInf = NInf"

definition py_sub :: "pyfloat \<Rightarrow> pyfloat \<Rightarrow> pyfloat" where
  "py_sub a b = py_add a (py_neg b)"

text \<open>\<open>0.5 * a\<close>.\<close>

fun py_half :: "pyfloat \<Rightarrow> pyfloat" where
  "py_half (Fin a) = Fin (a / 2)"
| "py_half a = a"

text \<open>
  \<open>np.nanmin\<close> and \<open>np.nanmax\<close> of an array: the smallest (largest) entry that is not
  NaN; NaN when every entry is NaN; \<open>ValueError\<close> on an empty array.
\<close>

definition nanmin :: "pyfloat list \<Rightarrow> error + pyfloat" where
  "nanmin xs =
     (if xs = [] then Inl ValueError
      else case filter (\<lambda>v. \<not> isnan v) xs of
             [] \<Rightarrow> Inr NaN
           | y # ys \<Rightarrow> Inr (fold (\<lambda>v acc. py_min acc v) ys y))"

definition nanmax :: "pyfloat list \<Rightarrow> error + pyfloat" where
  "nanmax xs =
     (if xs = [] then Inl ValueError
      else case filter (\<lambda>v. \<not> isnan v) xs of
             [] \<Rightarrow> Inr NaN
           | y # ys \<Rightarrow> Inr (fold (\<lambda>v acc. py_max acc v) ys y))"

text \<open>A nullable float attribute: \<open>None\<close> is Python's \<open>None\<close>.\<close>

type_synonym pyval = "pyfloat option"

text \<open>\<open>old != new\<close>, the test that decides whether a property change is notified.\<close>

fun py_ne :: "pyval \<Rightarrow> pyval \<Rightarrow> bool" where
  "py_ne None None = False"
| "py_ne (Some a) (Some b) = (\<not> py_eq a b)"
| "py_ne _ _ = True"

text \<open>Arithmetic on a nullable value raises \<open>TypeError\<close> on \<open>None\<close>.\<close>

definition as_float :: "pyval \<Rightarrow> error + pyfloat" where
  "as_float v = (case v of None \<Rightarrow> Inl TypeError | Some a \<Rightarrow> Inr a)"

section \<open>The frozen attribute guard\<close>

text \<open>
  \<open>FreezableState.__setattr__\<close> decides whether the write reaches
  \<open>super().__setattr__\<close>. \<open>frozen\<close> is \<open>self._frozen_state\<close>, \<open>k\<close> the attribute name and
  \<open>cur\<close> the outcome of \<open>getattr(self, k)\<close>, which is looked at only in the \<open>elif\<close>.
  \<open>k[0]\<close> raises \<open>IndexError\<close> on the empty name. The result \<open>Inr True\<close> means the
  write goes through, \<open>Inr False\<close> that it is dropped.
\<close>

definition setattr_reaches_super :: "string list \<Rightarrow> string \<Rightarrow> (error + 'v option) \<Rightarrow> error + bool" where
  "setattr_reaches_super frozen k cur =
     (case k of
        [] \<Rightarrow> Inl IndexError
      | c # _ \<Rightarrow>
          if c = CHR ''_'' \<or> k \<notin> set frozen then Inr True
          else (case cur of
                  Inl e \<Rightarrow> Inl e
                | Inr None \<Rightarrow> Inr True
                | Inr (Some _) \<Rightarrow> Inr False))"

text \<open>
  \<open>FreezableState.__setattr__(self, k, v)\<close> on a plain state object. \<open>frozen\<close> is the
  class-level list \<open>_frozen_state\<close>; \<open>ob\<close> holds the object's attributes (a missing
  name has no attribute; \<open>Some None\<close> is an attribute holding \<open>None\<close>);
  \<open>super().__setattr__(k, v)\<close> stores the value.
\<close>

type_synonym 'v py_object = "string \<rightharpoonup> 'v option"

definition getattr :: "'v py_object \<Rightarrow> string \<Rightarrow> error + 'v option" where
  "getattr ob k = (case ob k of None \<Rightarrow> Inl AttributeError | Some v \<Rightarrow> Inr v)"

definition FreezableState_setattr ::
  "string list \<Rightarrow> 'v py_object \<Rightarrow> string \<Rightarrow> 'v option \<Rightarrow> error + 'v py_object" where
  "FreezableState_setattr frozen ob k v =
     (case setattr_reaches_super frozen k (getattr ob k) of
        Inl e \<Rightarrow> Inl e
      | Inr reaches \<Rightarrow> if reaches then Inr (ob(k \<mapsto> v)) else Inr ob)"

section \<open>Observable properties\<close>

text \<open>
  The callback properties of the viewer states that this module reads and writes.
\<close>

datatype property = X_min | X_max | Y_min | Y_max | Zoom_radius | Zoom_center_x | Zoom_center_y

fun prop_name :: "property \<Rightarrow> string" where
  "prop_name X_min = ''x_min''"
| "prop_name X_max = ''x_max''"
| "prop_name Y_min = ''y_min''"
| "prop_name Y_max = ''y_max''"
| "prop_name Zoom_radius = ''zoom_radius''"
| "prop_name Zoom_center_x = ''zoom_center_x''"
| "prop_name Zoom_center_y = ''zoom_center_y''"

text \<open>The four axis limits \<open>(x_min, x_max, y_min, y_max)\<close>.\<close>

type_synonym limits = "pyval \<times> pyval \<times> pyval \<times> pyval"

text \<open>
  What a downstream observer sees: a callback registered on the property fires while the
  state holds these limits.
\<close>

datatype event = Notify property limits

text \<open>
  The part of a viewer state that the property machinery works on: the property values,
  the list \<open>_frozen_state\<close>, the bookkeeping of \<open>delay_callback\<close> (how many enclosing
  batches hold a property back, and its value when the outermost one began), and the
  record of the callbacks fired so far.
\<close>

record callback_state =
  vals :: "property \<Rightarrow> pyval"
  frozen_state :: "string list"
  delay_count :: "property \<Rightarrow> nat"
  old_values :: "property \<Rightarrow> pyval"
  trace :: "event list"

definition limits_of :: "'a callback_state_scheme \<Rightarrow> limits" where
  "limits_of s = (vals s X_min, vals s X_max, vals s Y_min, vals s Y_max)"

text \<open>
  A call either returns or raises; the state it leaves behind is kept in both cases, as
  the object's mutations are. A run is \<open>None\<close> when the nesting of callbacks exceeds the
  depth budget it was given.
\<close>

datatype 'st outcome = Returned 'st | Raised error 'st

fun final :: "'st outcome \<Rightarrow> 'st" where
  "final (Returned s) = s"
| "final (Raised e s) = s"

text \<open>Sequencing: the next statement runs only after a normal return.\<close>

definition and_then :: "'st outcome option \<Rightarrow> ('st \<Rightarrow> 'st outcome option) \<Rightarrow> 'st outcome option" where
  "and_then r f =
     (case r of
        None \<Rightarrow> None
      | Some (Raised e s) \<Rightarrow> Some (Raised e s)
      | Some (Returned s) \<Rightarrow> f s)"

text \<open>
  Modelled from the spec: the property system of the external \<open>echo\<close> library, which is
  not part of the sources. Assigning a callback property goes through
  \<open>FreezableState.__setattr__\<close> (the viewer states inherit it); a write that reaches the
  property stores the value and, when the value changed and the property is not held
  back by \<open>delay_callback\<close>, calls the property's callbacks synchronously (\<open>notify\<close>).
\<close>

definition setattr_prop ::
  "(property \<Rightarrow> 'a callback_state_scheme \<Rightarrow> 'a callback_state_scheme outcome option) \<Rightarrow>
   property \<Rightarrow> pyval \<Rightarrow> 'a callback_state_scheme \<Rightarrow> 'a callback_state_scheme outcome option" where
  "setattr_prop notify p v s =
     (case setattr_reaches_super (frozen_state s) (prop_name p) (Inr (vals s p)) of
        Inl e \<Rightarrow> Some (Raised e s)
      | Inr reaches \<Rightarrow>
          if reaches then
            (let old = vals s p; s' = s\<lparr>vals := (vals s)(p := v)\<rparr>
             in if delay_count s p = 0 \<and> py_ne old v then notify p s' else Some (Returned s'))
          else Some (Returned s))"

text \<open>
  Modelled from the spec: \<open>delay_callback(self, *props)\<close> of the external \<open>echo\<close> library.
  On entry each property is held back (the outermost batch remembers its value); on exit,
  also when the body raised, each property released by its outermost batch is notified
  if its value differs from the remembered one, after all of them have been released.
\<close>

fun delay_enter :: "property list \<Rightarrow> 'a callback_state_scheme \<Rightarrow> 'a callback_state_scheme" where
  "delay_enter [] s = s"
| "delay_enter (p # ps) s =
     delay_enter ps
       (if delay_count s p = 0
        then s\<lparr>delay_count := (delay_count s)(p := 1), old_values := (old_values s)(p := vals s p)\<rparr>
        else s\<lparr>delay_count := (delay_count s)(p := delay_count s p + 1)\<rparr>)"

text \<open>
  The exit of a batch: the properties to notify, in the order of the batch, and the state
  with every property of the batch released once.
\<close>

fun delay_exit_loop ::
  "property list \<Rightarrow> property list \<times> 'a callback_state_scheme \<Rightarrow> property list \<times> 'a callback_state_scheme" where
  "delay_exit_loop [] acc = acc"
| "delay_exit_loop (p # ps) (ns, s) =
     delay_exit_loop ps
       (if delay_count s p > 1
        then (ns, s\<lparr>delay_count := (delay_count s)(p := delay_count s p - 1)\<rparr>)
        else (if py_ne (old_values s p) (vals s p) then ns @ [p] else ns,
              s\<lparr>delay_count := (delay_count s)(p := 0)\<rparr>))"

definition delay_exit :: "property list \<Rightarrow> 'a callback_state_scheme \<Rightarrow> property list \<times> 'a callback_state_scheme" where
  "delay_exit ps s = delay_exit_loop ps ([], s)"

fun notify_all :: "(property \<Rightarrow> 'st \<Rightarrow> 'st outcome option) \<Rightarrow> property list \<Rightarrow> 'st \<Rightarrow> 'st outcome option" where
  "notify_all notify [] s = Some (Returned s)"
| "notify_all notify (p # ps) s = and_then (notify p s) (notify_all notify ps)"

definition delay_callback ::
  "(property \<Rightarrow> 'a callback_state_scheme \<Rightarrow> 'a callback_state_scheme outcome option) \<Rightarrow> property list \<Rightarrow>
   ('a callback_state_scheme \<Rightarrow> 'a callback_state_scheme outcome option) \<Rightarrow>
   'a callback_state_scheme \<Rightarrow> 'a callback_state_scheme outcome option" where
  "delay_callback notify ps body s =
     (case body (delay_enter ps s) of
        None \<Rightarrow> None
      | Some (Returned s1) \<Rightarrow> (case delay_exit ps s1 of (ns, s2) \<Rightarrow> notify_all notify ns s2)
      | Some (Raised e s1) \<Rightarrow>
          (case delay_exit ps s1 of (ns, s2) \<Rightarrow>
             (case notify_all notify ns s2 of
                None \<Rightarrow> None
              | Some (Returned s3) \<Rightarrow> Some (Raised e s3)
              | Some (Raised e' s3) \<Rightarrow> Some (Raised e' s3))))"

text \<open>A downstream observer's callback: it sees the limits the state holds right now.\<close>

definition observe :: "property \<Rightarrow> 'a callback_state_scheme \<Rightarrow> 'a callback_state_scheme" where
  "observe p s = s\<lparr>trace := trace s @ [Notify p (limits_of s)]\<rparr>"

section \<open>The profile viewer state\<close>

text \<open>
  A layer of a profile viewer: its visibility flag and what reading \<open>layer.profile\<close>
  gives: an exception, \<open>None\<close>, or the pair of arrays \<open>(x, y)\<close>.
\<close>

record profile_layer =
  visible :: bool
  profile :: "error + (pyfloat list \<times> pyfloat list) option"

record profile_state = callback_state +
  reference_data :: "string option"
  x_att_pixel :: "string option"
  layers :: "profile_layer list"

text \<open>
  This module registers no callback of its own on a profile state: a notification only
  reaches the downstream observers.
\<close>

definition notify_profile :: "property \<Rightarrow> profile_state \<Rightarrow> profile_state outcome option" where
  "notify_profile p s = Some (Returned (observe p s))"

text \<open>The loop of \<open>_reset_x_limits\<close> over \<open>self.layers\<close>, with the running \<open>(x_min, x_max)\<close>.\<close>

fun reset_x_limits_loop :: "profile_layer list \<Rightarrow> pyfloat \<times> pyfloat \<Rightarrow> error + pyfloat \<times> pyfloat" where
  "reset_x_limits_loop [] acc = Inr acc"
| "reset_x_limits_loop (layer # rest) (x_min, x_max) =
     (case profile layer of
        Inl e \<Rightarrow> reset_x_limits_loop rest (x_min, x_max)
      | Inr None \<Rightarrow> reset_x_limits_loop rest (x_min, x_max)
      | Inr (Some (x, y)) \<Rightarrow>
          if length x > 0 then
            (case nanmin x of
               Inl e \<Rightarrow> Inl e
             | Inr lo \<Rightarrow>
                 (case nanmax x of
                    Inl e \<Rightarrow> Inl e
                  | Inr hi \<Rightarrow> reset_x_limits_loop rest (py_min x_min lo, py_max x_max hi)))
          else reset_x_limits_loop rest (x_min, x_max))"

text \<open>\<open>FreezableProfileViewerState._reset_x_limits\<close>.\<close>

definition reset_x_limits :: "profile_state \<Rightarrow> profile_state outcome option" where
  "reset_x_limits s =
     (if reference_data s = None \<or> x_att_pixel s = None then Some (Returned s)
      else case reset_x_limits_loop (layers s) (PInf, NInf) of
             Inl e \<Rightarrow> Some (Raised e s)
           | Inr (x_min, x_max) \<Rightarrow>
               if \<not> (isfinite x_min \<and> isfinite x_max) then Some (Returned s)
               else delay_callback notify_profile [X_min, X_max]
                      (\<lambda>s. and_then (setattr_prop notify_profile X_min (Some x_min) s)
                                     (setattr_prop notify_profile X_max (Some x_max))) s)"

text \<open>
  \<open>FreezableProfileViewerState._convert_units_x_limits\<close>. The conversion
  \<open>spectral_axis_conversion\<close> lives in \<open>jdaviz.core.unit_conversion_utils\<close>, outside the
  sources; it is the parameter \<open>conv\<close>. A unit is its name, \<open>None\<close> the null unit.
\<close>

definition convert_units_x_limits ::
  "(pyval list \<Rightarrow> string \<Rightarrow> string \<Rightarrow> error + pyfloat list) \<Rightarrow>
   profile_state \<Rightarrow> string option \<Rightarrow> string option \<Rightarrow> profile_state outcome option" where
  "convert_units_x_limits conv s old_unit new_unit =
     (if vals s X_min = None \<or> vals s X_max = None then Some (Returned s)
      else case (old_unit, new_unit) of
             (Some old, Some new) \<Rightarrow>
               (case conv [vals s X_min, vals s X_max] old new of
                  Inl e \<Rightarrow> Some (Raised e s)
                | Inr x_lims_new \<Rightarrow>
                    (case nanmin x_lims_new of
                       Inl e \<Rightarrow> Some (Raised e s)
                     | Inr lo \<Rightarrow>
                         and_then (setattr_prop notify_profile X_min (Some lo) s)
                           (\<lambda>s. case nanmax x_lims_new of
                                   Inl e \<Rightarrow> Some (Raised e s)
                                 | Inr hi \<Rightarrow> setattr_prop notify_profile X_max (Some hi) s)))
           | _ \<Rightarrow> reset_x_limits s)"

section \<open>The image viewer state\<close>

text \<open>
  A coordinate transform (\<open>coords\<close>) of a data object, an external collaborator: the
  array forms used by the zoom synchronisation, which map a pair of x values and a pair
  of y values at once, and the point forms used by \<open>_get_reset_limits\<close>, where a sky
  position is its \<open>(ra, dec)\<close> values.
\<close>

record wcs =
  pixel_to_world_values :: "pyval \<times> pyval \<Rightarrow> pyval \<times> pyval \<Rightarrow> error + (pyfloat \<times> pyfloat) \<times> (pyfloat \<times> pyfloat)"
  world_to_pixel_values :: "pyval \<times> pyval \<Rightarrow> pyval \<times> pyval \<Rightarrow> error + (pyfloat \<times> pyfloat) \<times> (pyfloat \<times> pyfloat)"
  pixel_to_world :: "pyfloat \<Rightarrow> pyfloat \<Rightarrow> error + pyfloat \<times> pyfloat"
  world_to_pixel :: "pyfloat \<times> pyfloat \<Rightarrow> error + pyfloat \<times> pyfloat"

record pixel_component_id =
  label :: string
  axis :: nat

record glue_data =
  data_label :: string
  shape :: "nat list"
  coords :: "wcs option"

text \<open>
  A layer of an image viewer: \<open>layer.visible\<close>, \<open>layer.layer.data\<close> and
  \<open>layer.layer.pixel_component_ids\<close>.
\<close>

record image_layer =
  layer_visible :: bool
  layer_data :: glue_data
  pixel_component_ids :: "pixel_component_id list"

text \<open>
  Modelled from the spec: the attached viewer handle. \<open>config\<close> is
  \<open>self._viewer.jdaviz_app.config\<close>; \<open>reference_coords\<close> is the \<open>coords\<close> of the image that
  \<open>get_reference_image_data(self._viewer.jdaviz_app, self._viewer.reference)\<close> returns
  (\<open>jdaviz.utils\<close> is outside the sources).
\<close>

record viewer_handle =
  config :: string
  reference_coords :: "wcs option"

text \<open>
  \<open>FreezableBqplotImageViewerState\<close>. \<open>viewer\<close> is \<open>None\<close> as long as the state has no
  attribute \<open>_viewer\<close>.
\<close>

record image_state = callback_state +
  during_zoom_sync_flag :: bool
  viewer :: "viewer_handle option"
  linked_by_wcs :: bool
  image_reference_data :: "glue_data option"
  image_layers :: "image_layer list"
  data_collection :: "glue_data list"

text \<open>Sequencing of computations that only return a value or raise.\<close>

definition bind_err :: "error + 'a \<Rightarrow> ('a \<Rightarrow> error + 'b) \<Rightarrow> error + 'b" where
  "bind_err r f = (case r of Inl e \<Rightarrow> Inl e | Inr x \<Rightarrow> f x)"

text \<open>Running a value computation inside a stateful one: its exception leaves the state as it is.\<close>

definition try_value :: "error + 'a \<Rightarrow> 'st \<Rightarrow> ('a \<Rightarrow> 'st outcome option) \<Rightarrow> 'st outcome option" where
  "try_value r s f = (case r of Inl e \<Rightarrow> Some (Raised e s) | Inr x \<Rightarrow> f x)"

text \<open>\<open>xs[i]\<close> for an index that is not negative.\<close>

definition index :: "'a list \<Rightarrow> nat \<Rightarrow> error + 'a" where
  "index xs i = (if i < length xs then Inr (xs ! i) else Inl IndexError)"

text \<open>\<open>s.endswith(suffix)\<close>.\<close>

definition endswith :: "string \<Rightarrow> string \<Rightarrow> bool" where
  "endswith s suffix = (length suffix \<le> length s \<and> drop (length s - length suffix) s = suffix)"

text \<open>
  The tuple assignment \<open>self.x_min, self.x_max, self.y_min, self.y_max = ...\<close>: four
  attribute writes, one after the other.
\<close>

definition assign_limits ::
  "(property \<Rightarrow> 'a callback_state_scheme \<Rightarrow> 'a callback_state_scheme outcome option) \<Rightarrow> limits \<Rightarrow>
   'a callback_state_scheme \<Rightarrow> 'a callback_state_scheme outcome option" where
  "assign_limits notify lims s =
     (case lims of (x_min, x_max, y_min, y_max) \<Rightarrow>
        and_then (setattr_prop notify X_min x_min s)
          (\<lambda>s. and_then (setattr_prop notify X_max x_max s)
             (\<lambda>s. and_then (setattr_prop notify Y_min y_min s)
                (setattr_prop notify Y_max y_max))))"

text \<open>
  Modelled from the spec: \<open>_adjust_limits_aspect\<close> of the external base class, the
  adjustment of the limits to the display aspect ratio. The parameter \<open>adj\<close> says what it
  makes of the current limits: an exception, nothing to change (\<open>None\<close>), or new limits,
  which it writes as one batch.
\<close>

definition adjust_limits_aspect ::
  "(limits \<Rightarrow> error + limits option) \<Rightarrow>
   (property \<Rightarrow> image_state \<Rightarrow> image_state outcome option) \<Rightarrow> image_state \<Rightarrow> image_state outcome option" where
  "adjust_limits_aspect adj notify s =
     (case adj (limits_of s) of
        Inl e \<Rightarrow> Some (Raised e s)
      | Inr None \<Rightarrow> Some (Returned s)
      | Inr (Some lims) \<Rightarrow>
          delay_callback notify [X_min, X_max, Y_min, Y_max] (assign_limits notify lims) s)"

text \<open>The context manager \<open>during_zoom_sync\<close> around the body of a \<open>with\<close> block.\<close>

definition during_zoom_sync ::
  "(image_state \<Rightarrow> image_state outcome option) \<Rightarrow> image_state \<Rightarrow> image_state outcome option" where
  "during_zoom_sync body s =
     (case body (s\<lparr>during_zoom_sync_flag := True\<rparr>) of
        None \<Rightarrow> None
      | Some (Raised e s') \<Rightarrow> Some (Raised e (s'\<lparr>during_zoom_sync_flag := False\<rparr>))
      | Some (Returned s') \<Rightarrow> Some (Returned (s'\<lparr>during_zoom_sync_flag := False\<rparr>)))"

text \<open>
  The first part of \<open>_set_zoom_radius_center\<close>: the centre and the radius of the zoom
  circle in pixel units of the reference data. When the viewer is linked by WCS the
  centre and the point one radius to its right are sent through the reference
  transform; otherwise the zoom properties are pixel values already.
\<close>

definition zoom_circle_in_pixels :: "image_state \<Rightarrow> error + pyval \<times> pyval \<times> pyfloat" where
  "zoom_circle_in_pixels s =
     (if linked_by_wcs s then
        bind_err (case viewer s of None \<Rightarrow> Inl AttributeError | Some v \<Rightarrow> Inr v) (\<lambda>v.
        bind_err (case reference_coords v of None \<Rightarrow> Inl AttributeError | Some w \<Rightarrow> Inr w) (\<lambda>ref_wcs.
        bind_err (as_float (vals s Zoom_radius)) (\<lambda>r.
        bind_err (as_float (vals s Zoom_center_x)) (\<lambda>cx.
        bind_err (world_to_pixel_values ref_wcs
                    (vals s Zoom_center_x, Some (py_add cx (py_abs r)))
                    (vals s Zoom_center_y, vals s Zoom_center_y)) (\<lambda>cr.
          (case cr of ((center_x, center_xr), (center_y, _)) \<Rightarrow>
             Inr (Some center_x, Some center_y, py_abs (py_sub center_xr center_x))))))))
      else
        bind_err (as_float (vals s Zoom_radius)) (\<lambda>r.
          Inr (vals s Zoom_center_x, vals s Zoom_center_y, py_abs r)))"

text \<open>
  The limits that \<open>_set_zoom_radius_center\<close> computes inside its \<open>with\<close> block: the centre
  plus and minus the radius on each axis.
\<close>

definition zoom_box :: "pyval \<Rightarrow> pyval \<Rightarrow> pyfloat \<Rightarrow> error + limits" where
  "zoom_box center_x center_y radius =
     bind_err (as_float center_x) (\<lambda>cx.
     bind_err (as_float center_y) (\<lambda>cy.
       Inr (Some (py_sub cx radius), Some (py_add cx radius),
            Some (py_sub cy radius), Some (py_add cy radius))))"

text \<open>
  \<open>_set_zoom_radius_center\<close>. \<open>notify\<close> runs the callbacks of a property that one of its
  writes changed.
\<close>

definition set_zoom_radius_center ::
  "(limits \<Rightarrow> error + limits option) \<Rightarrow>
   (property \<Rightarrow> image_state \<Rightarrow> image_state outcome option) \<Rightarrow> image_state \<Rightarrow> image_state outcome option" where
  "set_zoom_radius_center adj notify s =
     (if during_zoom_sync_flag s \<or> viewer s = None then Some (Returned s)
      else
        try_value (zoom_circle_in_pixels s) s
          (\<lambda>(center_x, center_y, radius).
             during_zoom_sync
               (\<lambda>s. try_value (zoom_box center_x center_y radius) s
                       (\<lambda>lims. and_then (assign_limits notify lims s) (adjust_limits_aspect adj notify)))
               s))"

text \<open>
  The first part of \<open>_set_axes_lim\<close>, given limits that are all set: the limits in axes
  units, degrees when the viewer is linked by WCS and pixels otherwise.
\<close>

definition limits_in_axes_units ::
  "image_state \<Rightarrow> pyfloat \<times> pyfloat \<times> pyfloat \<times> pyfloat \<Rightarrow> error + pyfloat \<times> pyfloat \<times> pyfloat \<times> pyfloat" where
  "limits_in_axes_units s lims =
     (case lims of (x_min0, x_max0, y_min0, y_max0) \<Rightarrow>
        if linked_by_wcs s then
          bind_err (case viewer s of None \<Rightarrow> Inl AttributeError | Some v \<Rightarrow> Inr v) (\<lambda>v.
          bind_err (case reference_coords v of None \<Rightarrow> Inl AttributeError | Some w \<Rightarrow> Inr w) (\<lambda>ref_wcs.
          bind_err (pixel_to_world_values ref_wcs (Some x_min0, Some x_max0) (Some y_min0, Some y_max0)) (\<lambda>lims.
            (case lims of ((x_min, x_max), (y_min, y_max)) \<Rightarrow> Inr (x_min, x_max, y_min, y_max)))))
        else Inr (x_min0, x_max0, y_min0, y_max0))"

text \<open>\<open>_set_axes_lim\<close>.\<close>

definition set_axes_lim ::
  "(property \<Rightarrow> image_state \<Rightarrow> image_state outcome option) \<Rightarrow> image_state \<Rightarrow> image_state outcome option" where
  "set_axes_lim notify s =
     (if during_zoom_sync_flag s \<or> viewer s = None then Some (Returned s)
      else case limits_of s of
        (Some x_min0, Some x_max0, Some y_min0, Some y_max0) \<Rightarrow>
          try_value (limits_in_axes_units s (x_min0, x_max0, y_min0, y_max0)) s
            (\<lambda>(x_min, x_max, y_min, y_max).
               during_zoom_sync
                 (\<lambda>s. and_then
                         (setattr_prop notify Zoom_radius
                            (Some (py_abs (py_half (py_min (py_sub x_max x_min) (py_sub y_max y_min))))) s)
                         (\<lambda>s. and_then
                                 (setattr_prop notify Zoom_center_x (Some (py_half (py_add x_max x_min))) s)
                                 (setattr_prop notify Zoom_center_y (Some (py_half (py_add y_max y_min))))))
                 s)
      | _ \<Rightarrow> Some (Returned s))"

text \<open>
  The callbacks that \<open>__init__\<close> registers: a change of a zoom property calls
  \<open>_set_zoom_radius_center\<close>, a change of a limit calls \<open>_set_axes_lim\<close>. The downstream
  observers of the property are called as well. The first argument bounds how deeply
  callbacks may nest: a notification at depth \<open>0\<close> does not return.
\<close>

fun is_zoom_property :: "property \<Rightarrow> bool" where
  "is_zoom_property Zoom_radius = True"
| "is_zoom_property Zoom_center_x = True"
| "is_zoom_property Zoom_center_y = True"
| "is_zoom_property _ = False"

primrec notify_image ::
  "nat \<Rightarrow> (limits \<Rightarrow> error + limits option) \<Rightarrow> property \<Rightarrow> image_state \<Rightarrow> image_state outcome option" where
  "notify_image 0 adj p s = None"
| "notify_image (Suc n) adj p s =
     (if is_zoom_property p then set_zoom_radius_center adj (notify_image n adj) (observe p s)
      else set_axes_lim (notify_image n adj) (observe p s))"

text \<open>
  The first loop of \<open>_get_reset_limits\<close>, over \<open>self.layers\<close> when the viewer is linked by
  WCS and the reference data has a transform \<open>ref_wcs\<close>. The accumulator is
  \<open>(wcs_success, x_min, x_max, y_min, y_max)\<close>.
\<close>

fun get_reset_limits_wcs_loop ::
  "glue_data list \<Rightarrow> wcs \<Rightarrow> bool \<Rightarrow> image_layer list \<Rightarrow>
   bool \<times> pyfloat \<times> pyfloat \<times> pyfloat \<times> pyfloat \<Rightarrow> error + bool \<times> pyfloat \<times> pyfloat \<times> pyfloat \<times> pyfloat" where
  "get_reset_limits_wcs_loop dc ref_wcs return_as_world [] acc = Inr acc"
| "get_reset_limits_wcs_loop dc ref_wcs return_as_world (layer # rest) (wcs_success, x_min, x_max, y_min, y_max) =
     (if \<not> layer_visible layer
      then get_reset_limits_wcs_loop dc ref_wcs return_as_world rest (wcs_success, x_min, x_max, y_min, y_max)
      else
        (case find (\<lambda>x. data_label x = data_label (layer_data layer)) dc of
           None \<Rightarrow> Inl StopIteration
         | Some data \<Rightarrow>
             (case coords data of
                None \<Rightarrow> get_reset_limits_wcs_loop dc ref_wcs return_as_world rest (wcs_success, x_min, x_max, y_min, y_max)
              | Some data_wcs \<Rightarrow>
                  bind_err (pixel_to_world data_wcs (Fin 0) (Fin 0)) (\<lambda>world_bottom_left.
                  bind_err (index (pixel_component_ids layer) 1) (\<lambda>pixel_id_1.
                  bind_err (index (shape (layer_data layer)) (axis pixel_id_1)) (\<lambda>n1.
                  bind_err (index (pixel_component_ids layer) 0) (\<lambda>pixel_id_0.
                  bind_err (index (shape (layer_data layer)) (axis pixel_id_0)) (\<lambda>n0.
                  bind_err (pixel_to_world data_wcs (Fin (real n1 - 1)) (Fin (real n0 - 1))) (\<lambda>world_top_right.
                    if return_as_world then
                      get_reset_limits_wcs_loop dc ref_wcs return_as_world rest
                        (True,
                         py_min x_min (fst world_bottom_left), py_max x_max (fst world_top_right),
                         py_min y_min (snd world_bottom_left), py_max y_max (snd world_top_right))
                    else
                      bind_err (world_to_pixel ref_wcs world_bottom_left) (\<lambda>(x_bl, y_bl).
                      bind_err (world_to_pixel ref_wcs world_top_right) (\<lambda>(x_tr, y_tr).
                        get_reset_limits_wcs_loop dc ref_wcs return_as_world rest
                          (True,
                           py_min x_min (py_sub (py_min x_bl x_tr) (Fin (1/2))),
                           py_max x_max (py_add (py_max x_bl x_tr) (Fin (1/2))),
                           py_min y_min (py_sub (py_min y_bl y_tr) (Fin (1/2))),
                           py_max y_max (py_add (py_max y_bl y_tr) (Fin (1/2)))))))))))))))"

text \<open>
  The second loop of \<open>_get_reset_limits\<close>, the bounds from the pixel shapes. The
  accumulator is \<open>(x_max, y_max)\<close>.
\<close>

fun get_reset_limits_pixel_loop :: "image_layer list \<Rightarrow> pyfloat \<times> pyfloat \<Rightarrow> error + pyfloat \<times> pyfloat" where
  "get_reset_limits_pixel_loop [] acc = Inr acc"
| "get_reset_limits_pixel_loop (layer # rest) (x_max, y_max) =
     (if \<not> layer_visible layer \<or> length (shape (layer_data layer)) = 1
      then get_reset_limits_pixel_loop rest (x_max, y_max)
      else
        bind_err (index (filter (\<lambda>comp. endswith (label comp) ''[x]'') (pixel_component_ids layer)) 0) (\<lambda>pixel_id_x.
        bind_err (index (filter (\<lambda>comp. endswith (label comp) ''[y]'') (pixel_component_ids layer)) 0) (\<lambda>pixel_id_y.
        bind_err (index (shape (layer_data layer)) (axis pixel_id_x)) (\<lambda>nx.
        bind_err (index (shape (layer_data layer)) (axis pixel_id_y)) (\<lambda>ny.
          get_reset_limits_pixel_loop rest
            (py_max x_max (Fin (real nx - 1/2)), py_max y_max (Fin (real ny - 1/2))))))))"

text \<open>\<open>_get_reset_limits(return_as_world)\<close>; the result is \<open>(x_min, x_max, y_min, y_max)\<close>.\<close>

definition get_reset_limits :: "image_state \<Rightarrow> bool \<Rightarrow> error + pyfloat \<times> pyfloat \<times> pyfloat \<times> pyfloat" where
  "get_reset_limits s return_as_world =
     bind_err
       (if linked_by_wcs s then
          (case image_reference_data s of
             None \<Rightarrow> Inl AttributeError
           | Some ref_data \<Rightarrow>
               (case coords ref_data of
                  None \<Rightarrow> Inr (False, PInf, NInf, PInf, NInf)
                | Some ref_wcs \<Rightarrow>
                    get_reset_limits_wcs_loop (data_collection s) ref_wcs return_as_world
                      (image_layers s) (False, PInf, NInf, PInf, NInf)))
        else Inr (False, PInf, NInf, PInf, NInf))
       (\<lambda>(wcs_success, x_min, x_max, y_min, y_max).
          if \<not> wcs_success then
            bind_err (get_reset_limits_pixel_loop (image_layers s) (NInf, NInf)) (\<lambda>(x_max, y_max).
              Inr (Fin (- 1/2), x_max, Fin (- 1/2), y_max))
          else Inr (x_min, x_max, y_min, y_max))"

text \<open>
  \<open>reset_limits\<close>. \<open>super_reset_limits\<close> is the external base class's method, used for
  every host configuration other than \<open>imviz\<close>; \<open>n\<close> bounds the nesting of callbacks.
\<close>

definition reset_limits ::
  "(image_state \<Rightarrow> image_state outcome option) \<Rightarrow> (limits \<Rightarrow> error + limits option) \<Rightarrow> nat \<Rightarrow>
   image_state \<Rightarrow> image_state outcome option" where
  "reset_limits super_reset_limits adj n s =
     (if (case viewer s of None \<Rightarrow> False | Some v \<Rightarrow> config v \<noteq> ''imviz'') then super_reset_limits s
      else if image_reference_data s = None then Some (Returned s)
      else
        try_value (get_reset_limits s False) s
          (\<lambda>(x_min, x_max, y_min, y_max).
             if \<not> (isfinite x_min \<and> isfinite x_max \<and> isfinite y_min \<and> isfinite y_max)
             then Some (Returned s)
             else
               delay_callback (notify_image n adj) [X_min, X_max, Y_min, Y_max]
                 (\<lambda>s. and_then
                         (assign_limits (notify_image n adj) (Some x_min, Some x_max, Some y_min, Some y_max) s)
                         (adjust_limits_aspect adj (notify_image n adj)))
                 s))"

section \<open>Notions used to state the properties\<close>

text \<open>The frozen attribute guard lets a write to the property through.\<close>

definition permitted :: "'a callback_state_scheme \<Rightarrow> property \<Rightarrow> bool" where
  "permitted s p = (prop_name p \<notin> set (frozen_state s) \<or> vals s p = None)"

text \<open>None of the listed properties is in the frozen list.\<close>

definition unfrozen :: "'a callback_state_scheme \<Rightarrow> property list \<Rightarrow> bool" where
  "unfrozen s ps = list_all (\<lambda>p. prop_name p \<notin> set (frozen_state s)) ps"

text \<open>
  The state after a write to a property whose notification, if there is one, has no
  effect beyond reaching the downstream observers.
\<close>

definition stored :: "property \<Rightarrow> pyval \<Rightarrow> 'a callback_state_scheme \<Rightarrow> 'a callback_state_scheme" where
  "stored p v s =
     (if permitted s p
      then (if delay_count s p = 0 \<and> py_ne (vals s p) v
            then observe p (s\<lparr>vals := (vals s)(p := v)\<rparr>)
            else s\<lparr>vals := (vals s)(p := v)\<rparr>)
      else s)"

text \<open>
  The x values that \<open>_reset_x_limits\<close> takes into account: for every layer, visible or
  not, whose \<open>profile\<close> is a pair of arrays, the entries of \<open>x\<close> that are not NaN.
\<close>

definition profile_x_values :: "profile_layer list \<Rightarrow> pyfloat list" where
  "profile_x_values ls =
     concat (map (\<lambda>l. case profile l of Inr (Some (x, y)) \<Rightarrow> filter (\<lambda>v. \<not> isnan v) x | _ \<Rightarrow> []) ls)"

text \<open>The value of a property, and the callbacks fired, once a call is over.\<close>

definition value_after :: "'a callback_state_scheme outcome option \<Rightarrow> property \<Rightarrow> pyval option" where
  "value_after r p = (case r of None \<Rightarrow> None | Some out \<Rightarrow> Some (vals (final out) p))"

definition trace_after :: "'a callback_state_scheme outcome option \<Rightarrow> event list option" where
  "trace_after r = (case r of None \<Rightarrow> None | Some out \<Rightarrow> Some (trace (final out)))"

text \<open>
  Concrete profile viewer states for the examples: the given x limits, nothing frozen, no
  batch open, reference data and pixel x-attribute configured, and the given layers.
\<close>

definition example_profile_state :: "pyval \<Rightarrow> pyval \<Rightarrow> profile_layer list \<Rightarrow> profile_state" where
  "example_profile_state x_lo x_hi ls =
     \<lparr>vals = (\<lambda>p. None)(X_min := x_lo, X_max := x_hi), frozen_state = [],
      delay_count = (\<lambda>p. 0), old_values = (\<lambda>p. None), trace = [],
      reference_data = Some ''spectrum'', x_att_pixel = Some ''Pixel Axis 0 [x]'', layers = ls\<rparr>"

definition example_layer :: "bool \<Rightarrow> pyfloat list \<Rightarrow> profile_layer" where
  "example_layer vis x = \<lparr>visible = vis, profile = Inr (Some (x, x))\<rparr>"

definition failing_layer :: profile_layer where
  "failing_layer = \<lparr>visible = True, profile = Inl (ExternalError ''IncompatibleAttribute'')\<rparr>"

text \<open>A spectral axis conversion for the examples: microns to nanometres.\<close>

definition micron_to_nm :: "pyval list \<Rightarrow> string \<Rightarrow> string \<Rightarrow> error + pyfloat list" where
  "micron_to_nm xs old new =
     Inr (map (\<lambda>v. case v of Some (Fin a) \<Rightarrow> Fin (1000 * a) | Some b \<Rightarrow> b | None \<Rightarrow> NaN) xs)"

text \<open>A notification that reaches the downstream observers and runs no handler of this module.\<close>

definition observers_only :: "property \<Rightarrow> 'a callback_state_scheme \<Rightarrow> 'a callback_state_scheme outcome option" where
  "observers_only p s = Some (Returned (observe p s))"

text \<open>
  A way of notifying under which, while a zoom synchronisation is running, a change only
  reaches the downstream observers.
\<close>

definition quiet :: "(property \<Rightarrow> image_state \<Rightarrow> image_state outcome option) \<Rightarrow> bool" where
  "quiet notify = (\<forall>p s. during_zoom_sync_flag s \<longrightarrow> notify p s = Some (Returned (observe p s)))"

text \<open>
  The state after the four limits have been assigned one after the other, and after they
  have been assigned as one batch, when no notification does more than reach the observers.
\<close>

definition assigned :: "limits \<Rightarrow> 'a callback_state_scheme \<Rightarrow> 'a callback_state_scheme" where
  "assigned lims s =
     (case lims of (x_min, x_max, y_min, y_max) \<Rightarrow>
        stored Y_max y_max (stored Y_min y_min (stored X_max x_max (stored X_min x_min s))))"

definition batch_assigned :: "limits \<Rightarrow> 'a callback_state_scheme \<Rightarrow> 'a callback_state_scheme" where
  "batch_assigned lims s =
     (case delay_exit [X_min, X_max, Y_min, Y_max] (assigned lims (delay_enter [X_min, X_max, Y_min, Y_max] s)) of
        (ns, s') \<Rightarrow> fold observe ns s')"

text \<open>The exception a call ended with, if any.\<close>

definition raised_error :: "'st outcome \<Rightarrow> error option" where
  "raised_error out = (case out of Returned s \<Rightarrow> None | Raised e s \<Rightarrow> Some e)"

text \<open>
  Concrete image viewer states for the examples: the given limits and zoom properties
  \<open>(zoom_radius, zoom_center_x, zoom_center_y)\<close>, nothing frozen, no batch open, a viewer
  attached, not linked by WCS.
\<close>

definition example_image_state :: "limits \<Rightarrow> pyval \<times> pyval \<times> pyval \<Rightarrow> image_state" where
  "example_image_state lims zoom =
     (case (lims, zoom) of ((x_lo, x_hi, y_lo, y_hi), (radius, center_x, center_y)) \<Rightarrow>
        \<lparr>vals = (\<lambda>p. None)(X_min := x_lo, X_max := x_hi, Y_min := y_lo, Y_max := y_hi,
                  Zoom_radius := radius, Zoom_center_x := center_x, Zoom_center_y := center_y),
         frozen_state = [], delay_count = (\<lambda>p. 0), old_values = (\<lambda>p. None), trace = [],
         during_zoom_sync_flag = False,
         viewer = Some \<lparr>config = ''imviz'', reference_coords = None\<rparr>,
         linked_by_wcs = False, image_reference_data = None, image_layers = [], data_collection = []\<rparr>)"

text \<open>Aspect adjustments for the examples: one with nothing to change, one that raises.\<close>

definition no_adjust :: "limits \<Rightarrow> error + limits option" where
  "no_adjust lims = Inr None"

definition failing_adjust :: "limits \<Rightarrow> error + limits option" where
  "failing_adjust lims = Inl (ExternalError ''aspect'')"

text \<open>
  The layers that the pixel-shape bounds of \<open>_get_reset_limits\<close> take into account: the
  visible ones whose data is not one-dimensional.
\<close>

definition eligible_layers :: "image_state \<Rightarrow> image_layer list" where
  "eligible_layers s =
     filter (\<lambda>l. layer_visible l \<and> length (shape (layer_data l)) \<noteq> 1) (image_layers s)"

text \<open>
  The size of a layer's data along the pixel axis whose component label ends with the
  given tag, \<open>[x]\<close> or \<open>[y]\<close>; an \<open>IndexError\<close> when there is no such component or its axis
  is outside the shape.
\<close>

definition shape_along :: "string \<Rightarrow> image_layer \<Rightarrow> error + nat" where
  "shape_along tag l =
     bind_err (index (filter (\<lambda>comp. endswith (label comp) tag) (pixel_component_ids l)) 0)
       (\<lambda>comp. index (shape (layer_data l)) (axis comp))"

definition size_along :: "string \<Rightarrow> image_layer \<Rightarrow> nat" where
  "size_along tag l = (case shape_along tag l of Inl e \<Rightarrow> 0 | Inr n \<Rightarrow> n)"

text \<open>Every eligible layer has an x and a y pixel component with an axis inside its shape.\<close>

definition pixel_axes_found :: "image_state \<Rightarrow> bool" where
  "pixel_axes_found s =
     list_all (\<lambda>l. shape_along ''[x]'' l \<noteq> Inl IndexError \<and> shape_along ''[y]'' l \<noteq> Inl IndexError)
       (eligible_layers s)"

text \<open>
  The first loop of \<open>_get_reset_limits\<close> finds the data of every visible layer in the data
  collection, and none of them has a coordinate transform.
\<close>

definition no_layer_has_coords :: "image_state \<Rightarrow> bool" where
  "no_layer_has_coords s =
     list_all (\<lambda>l. layer_visible l \<longrightarrow>
                 (case find (\<lambda>x. data_label x = data_label (layer_data l)) (data_collection s) of
                    None \<Rightarrow> False
                  | Some d \<Rightarrow> coords d = None))
       (image_layers s)"

text \<open>
  The WCS-based computation of \<open>_get_reset_limits\<close> does not apply: the viewer is not
  linked by WCS, or it is and the reference data has no transform, or no layer has one.
\<close>

definition wcs_not_applicable :: "image_state \<Rightarrow> bool" where
  "wcs_not_applicable s =
     (if linked_by_wcs s
      then (case image_reference_data s of
              None \<Rightarrow> False
            | Some r \<Rightarrow> coords r = None \<or> no_layer_has_coords s)
      else True)"

text \<open>
  The upper bound from the pixel shapes: negative infinity without an eligible layer,
  otherwise the greatest size along the axis, less one half.
\<close>

definition pixel_upper_bound :: "string \<Rightarrow> image_layer list \<Rightarrow> pyfloat" where
  "pixel_upper_bound tag ls =
     (if ls = [] then NInf else Fin (Max ((\<lambda>l. real (size_along tag l) - 1/2) ` set ls)))"

text \<open>A layer for the examples, with the pixel components of a two-dimensional image.\<close>

definition example_image_layer :: "bool \<Rightarrow> nat list \<Rightarrow> image_layer" where
  "example_image_layer vis shp =
     \<lparr>layer_visible = vis,
      layer_data = \<lparr>data_label = ''image'', shape = shp, coords = None\<rparr>,
      pixel_component_ids = [\<lparr>label = ''Pixel Axis 0 [y]'', axis = 0\<rparr>,
                             \<lparr>label = ''Pixel Axis 1 [x]'', axis = 1\<rparr>]\<rparr>"

section \<open>The frozen attribute guard: properties\<close>

text \<open>
  Claim C1. For a state object with its class-level frozen list, an attribute name \<open>k\<close>
  (not the empty string) and a value \<open>v\<close>: when \<open>k\<close> begins with an underscore or is not
  in the frozen list, the assignment sets the attribute to \<open>v\<close>; when \<open>k\<close> is in the
  frozen list and the attribute holds \<open>None\<close>, the assignment sets it to \<open>v\<close>; in the
  remaining case, \<open>k\<close> in the frozen list with a value other than \<open>None\<close>, the
  assignment returns without an error and leaves the object as it was.
\<close>

theorem FreezableState_setattr_cases:
  fixes ob :: "'v py_object"
  assumes "k \<noteq> []"
  shows "(hd k = CHR ''_'' \<or> k \<notin> set frozen \<longrightarrow>
            FreezableState_setattr frozen ob k v = Inr (ob(k \<mapsto> v)))
       \<and> (k \<in> set frozen \<and> getattr ob k = Inr None \<longrightarrow>
            FreezableState_setattr frozen ob k v = Inr (ob(k \<mapsto> v)))
       \<and> (hd k \<noteq> CHR ''_'' \<and> k \<in> set frozen \<and> getattr ob k = Inr (Some w) \<longrightarrow>
            FreezableState_setattr frozen ob k v = Inr ob)"
  using assms
  by (cases k) (auto simp: FreezableState_setattr_def setattr_reaches_super_def)

theorem FreezableState_setattr_cases_witness:
  "FreezableState_setattr [''x_att''] [''x_att'' \<mapsto> Some (1::nat)] ''y_att'' (Some 2)
     = Inr ([''x_att'' \<mapsto> Some 1, ''y_att'' \<mapsto> Some 2])
   \<and> FreezableState_setattr [''_x''] [''_x'' \<mapsto> Some (1::nat)] ''_x'' (Some 2) = Inr ([''_x'' \<mapsto> Some 2])
   \<and> FreezableState_setattr [''x_att''] [''x_att'' \<mapsto> None] ''x_att'' (Some (2::nat))
     = Inr ([''x_att'' \<mapsto> Some 2])
   \<and> FreezableState_setattr [''x_att''] [''x_att'' \<mapsto> Some (1::nat)] ''x_att'' (Some 2)
     = Inr ([''x_att'' \<mapsto> Some 1])"
proof -
  have a: "FreezableState_setattr [''x_att''] [''x_att'' \<mapsto> Some (1::nat)] ''y_att'' (Some 2)
     = Inr ([''x_att'' \<mapsto> Some 1, ''y_att'' \<mapsto> Some 2])"
    using FreezableState_setattr_cases [of "''y_att''" "[''x_att'']" "[''x_att'' \<mapsto> Some (1::nat)]" "Some 2"]
    by simp
  have b: "FreezableState_setattr [''_x''] [''_x'' \<mapsto> Some (1::nat)] ''_x'' (Some 2) = Inr ([''_x'' \<mapsto> Some 2])"
    using FreezableState_setattr_cases [of "''_x''" "[''_x'']" "[''_x'' \<mapsto> Some (1::nat)]" "Some 2"]
    by simp
  have c: "FreezableState_setattr [''x_att''] [''x_att'' \<mapsto> None] ''x_att'' (Some (2::nat))
     = Inr ([''x_att'' \<mapsto> Some 2])"
    using FreezableState_setattr_cases [of "''x_att''" "[''x_att'']" "[''x_att'' \<mapsto> None]" "Some (2::nat)"]
    by (simp add: getattr_def)
  have d: "FreezableState_setattr [''x_att''] [''x_att'' \<mapsto> Some (1::nat)] ''x_att'' (Some 2)
     = Inr ([''x_att'' \<mapsto> Some 1])"
    using FreezableState_setattr_cases [of "''x_att''" "[''x_att'']" "[''x_att'' \<mapsto> Some (1::nat)]" "Some 2" 1]
    by (simp add: getattr_def)
  from a b c d show ?thesis by blast
qed

section \<open>Facts about the property machinery\<close>

lemma prop_name_guard [simp]:
  "setattr_reaches_super fz (prop_name p) (Inr v) = Inr (prop_name p \<notin> set fz \<or> v = None)"
  by (cases p; cases v) (auto simp: setattr_reaches_super_def)

lemma observe_simps [simp]:
  "vals (observe p s) = vals s"
  "frozen_state (observe p s) = frozen_state s"
  "delay_count (observe p s) = delay_count s"
  "old_values (observe p s) = old_values s"
  "trace (observe p s) = trace s @ [Notify p (limits_of s)]"
  by (simp_all add: observe_def)

lemma limits_of_observe [simp]: "limits_of (observe p s) = limits_of s"
  by (simp add: limits_of_def)

lemma stored_simps [simp]:
  "vals (stored p v s) = (if permitted s p then (vals s)(p := v) else vals s)"
  "frozen_state (stored p v s) = frozen_state s"
  "delay_count (stored p v s) = delay_count s"
  "old_values (stored p v s) = old_values s"
  by (simp_all add: stored_def)

lemma permitted_stored [simp]:
  "p \<noteq> q \<Longrightarrow> permitted (stored p v s) q = permitted s q"
  by (simp add: permitted_def)

lemma unfrozen_permitted: "unfrozen s ps \<Longrightarrow> p \<in> set ps \<Longrightarrow> permitted s p"
  by (auto simp: unfrozen_def permitted_def list_all_iff)

lemma and_then_Returned [simp]: "and_then (Some (Returned s)) f = f s"
  by (simp add: and_then_def)

lemma and_then_Raised [simp]: "and_then (Some (Raised e s)) f = Some (Raised e s)"
  by (simp add: and_then_def)

lemma setattr_prop_delayed:
  "delay_count s p > 0 \<Longrightarrow> setattr_prop nt p v s = Some (Returned (stored p v s))"
  by (simp add: setattr_prop_def stored_def permitted_def Let_def)

lemma setattr_prop_profile:
  "setattr_prop notify_profile p v s = Some (Returned (stored p v s))"
  by (simp add: setattr_prop_def stored_def permitted_def Let_def notify_profile_def)

lemma delay_enter_simps [simp]:
  "vals (delay_enter ps s) = vals s"
  "frozen_state (delay_enter ps s) = frozen_state s"
  "trace (delay_enter ps s) = trace s"
  by (induction ps arbitrary: s) simp_all

lemma delay_exit_loop_simps [simp]:
  "vals (snd (delay_exit_loop ps acc)) = vals (snd acc)"
  "frozen_state (snd (delay_exit_loop ps acc)) = frozen_state (snd acc)"
  "trace (snd (delay_exit_loop ps acc)) = trace (snd acc)"
  by (induction ps acc rule: delay_exit_loop.induct) simp_all

lemma delay_exit_simps [simp]:
  "vals (snd (delay_exit ps s)) = vals s"
  "frozen_state (snd (delay_exit ps s)) = frozen_state s"
  "trace (snd (delay_exit ps s)) = trace s"
  by (simp_all add: delay_exit_def)

lemma permitted_cong:
  "vals t = vals s \<Longrightarrow> frozen_state t = frozen_state s \<Longrightarrow> permitted t p = permitted s p"
  by (simp add: permitted_def)

lemma fold_observe_simps [simp]:
  "vals (fold observe ns s) = vals s"
  "frozen_state (fold observe ns s) = frozen_state s"
  "delay_count (fold observe ns s) = delay_count s"
  "limits_of (fold observe ns s) = limits_of s"
  by (induction ns arbitrary: s) simp_all

lemma notify_all_profile:
  "notify_all notify_profile ns s = Some (Returned (fold observe ns s))"
  by (induction ns arbitrary: s) (simp_all add: notify_profile_def)

lemma delay_callback_profile:
  assumes "body (delay_enter ps s) = Some (Returned s1)"
  shows "delay_callback notify_profile ps body s =
           Some (Returned (fold observe (fst (delay_exit ps s1)) (snd (delay_exit ps s1))))"
  using assms by (simp add: delay_callback_def notify_all_profile split: prod.split)


section \<open>Facts about minima and maxima of floats\<close>

lemma py_min_assoc:
  "\<not> isnan a \<Longrightarrow> \<not> isnan b \<Longrightarrow> \<not> isnan c \<Longrightarrow> py_min (py_min a b) c = py_min a (py_min b c)"
  by (cases a; cases b; cases c) (auto simp: py_min_def)

lemma py_max_assoc:
  "\<not> isnan a \<Longrightarrow> \<not> isnan b \<Longrightarrow> \<not> isnan c \<Longrightarrow> py_max (py_max a b) c = py_max a (py_max b c)"
  by (cases a; cases b; cases c) (auto simp: py_max_def)

lemma py_min_not_nan: "\<not> isnan a \<Longrightarrow> \<not> isnan b \<Longrightarrow> \<not> isnan (py_min a b)"
  by (simp add: py_min_def)

lemma py_max_not_nan: "\<not> isnan a \<Longrightarrow> \<not> isnan b \<Longrightarrow> \<not> isnan (py_max a b)"
  by (simp add: py_max_def)

lemma py_min_NaN [simp]: "py_min a NaN = a"
  by (cases a) (simp_all add: py_min_def)

lemma py_max_NaN [simp]: "py_max a NaN = a"
  by (cases a) (simp_all add: py_max_def)

lemma fold_py_min_acc:
  "\<not> isnan a \<Longrightarrow> \<not> isnan y \<Longrightarrow> \<forall>v\<in>set ys. \<not> isnan v \<Longrightarrow>
   py_min a (fold (\<lambda>v acc. py_min acc v) ys y) = fold (\<lambda>v acc. py_min acc v) ys (py_min a y)"
  by (induction ys arbitrary: y) (simp_all add: py_min_assoc py_min_not_nan)

lemma fold_py_max_acc:
  "\<not> isnan a \<Longrightarrow> \<not> isnan y \<Longrightarrow> \<forall>v\<in>set ys. \<not> isnan v \<Longrightarrow>
   py_max a (fold (\<lambda>v acc. py_max acc v) ys y) = fold (\<lambda>v acc. py_max acc v) ys (py_max a y)"
  by (induction ys arbitrary: y) (simp_all add: py_max_assoc py_max_not_nan)

lemma py_min_nanmin:
  assumes "\<not> isnan a" "x \<noteq> []"
  shows "\<exists>lo. nanmin x = Inr lo \<and> py_min a lo = fold (\<lambda>v acc. py_min acc v) (filter (\<lambda>v. \<not> isnan v) x) a"
proof (cases "filter (\<lambda>v. \<not> isnan v) x")
  case Nil
  with assms show ?thesis by (simp add: nanmin_def)
next
  case (Cons y ys)
  have "\<forall>v\<in>set (filter (\<lambda>v. \<not> isnan v) x). \<not> isnan v" by simp
  then have "\<not> isnan y" "\<forall>v\<in>set ys. \<not> isnan v"
    unfolding Cons by simp_all
  with assms Cons show ?thesis
    by (simp add: nanmin_def fold_py_min_acc)
qed

lemma py_max_nanmax:
  assumes "\<not> isnan a" "x \<noteq> []"
  shows "\<exists>hi. nanmax x = Inr hi \<and> py_max a hi = fold (\<lambda>v acc. py_max acc v) (filter (\<lambda>v. \<not> isnan v) x) a"
proof (cases "filter (\<lambda>v. \<not> isnan v) x")
  case Nil
  with assms show ?thesis by (simp add: nanmax_def)
next
  case (Cons y ys)
  have "\<forall>v\<in>set (filter (\<lambda>v. \<not> isnan v) x). \<not> isnan v" by simp
  then have "\<not> isnan y" "\<forall>v\<in>set ys. \<not> isnan v"
    unfolding Cons by simp_all
  with assms Cons show ?thesis
    by (simp add: nanmax_def fold_py_max_acc)
qed

lemma fold_py_min_not_nan:
  "\<not> isnan a \<Longrightarrow> \<forall>v\<in>set xs. \<not> isnan v \<Longrightarrow> \<not> isnan (fold (\<lambda>v acc. py_min acc v) xs a)"
  by (induction xs arbitrary: a) (simp_all add: py_min_not_nan)

lemma fold_py_max_not_nan:
  "\<not> isnan a \<Longrightarrow> \<forall>v\<in>set xs. \<not> isnan v \<Longrightarrow> \<not> isnan (fold (\<lambda>v acc. py_max acc v) xs a)"
  by (induction xs arbitrary: a) (simp_all add: py_max_not_nan)

lemma reset_x_limits_loop_fold:
  "\<not> isnan lo \<Longrightarrow> \<not> isnan hi \<Longrightarrow>
   reset_x_limits_loop ls (lo, hi) =
     Inr (fold (\<lambda>v acc. py_min acc v) (profile_x_values ls) lo,
          fold (\<lambda>v acc. py_max acc v) (profile_x_values ls) hi)"
proof (induction ls arbitrary: lo hi)
  case Nil
  then show ?case by (simp add: profile_x_values_def)
next
  case (Cons l ls)
  show ?case
  proof (cases "profile l")
    case (Inl e)
    with Cons show ?thesis by (simp add: profile_x_values_def)
  next
    case (Inr po)
    show ?thesis
    proof (cases po)
      case None
      with Inr Cons show ?thesis by (simp add: profile_x_values_def)
    next
      case (Some xy)
      obtain x y where xy: "xy = (x, y)" by (cases xy)
      show ?thesis
      proof (cases "x = []")
        case True
        with Inr Some xy Cons show ?thesis by (simp add: profile_x_values_def)
      next
        case False
        from py_min_nanmin [OF Cons.prems(1) False] obtain l1 where
          l1: "nanmin x = Inr l1" "py_min lo l1 = fold (\<lambda>v acc. py_min acc v) (filter (\<lambda>v. \<not> isnan v) x) lo"
          by blast
        from py_max_nanmax [OF Cons.prems(2) False] obtain h1 where
          h1: "nanmax x = Inr h1" "py_max hi h1 = fold (\<lambda>v acc. py_max acc v) (filter (\<lambda>v. \<not> isnan v) x) hi"
          by blast
        have nn: "\<not> isnan (py_min lo l1)" "\<not> isnan (py_max hi h1)"
          using l1(2) h1(2) Cons.prems by (simp_all add: fold_py_min_not_nan fold_py_max_not_nan)
        show ?thesis
          using Inr Some xy False l1 h1 Cons.IH [OF nn]
          by (simp add: profile_x_values_def)
      qed
    qed
  qed
qed

lemma profile_x_values_not_nan: "\<forall>v\<in>set (profile_x_values ls). \<not> isnan v"
  by (auto simp: profile_x_values_def split: sum.splits option.splits)

lemma py_le_refl: "\<not> isnan a \<Longrightarrow> py_le a a"
  by (cases a) (simp_all add: py_le_def)

lemma py_le_trans: "py_le a b \<Longrightarrow> py_le b c \<Longrightarrow> py_le a c"
  by (cases a; cases b; cases c) (auto simp: py_le_def)

lemma py_min_le: "\<not> isnan a \<Longrightarrow> \<not> isnan b \<Longrightarrow> py_le (py_min a b) a \<and> py_le (py_min a b) b"
  by (cases a; cases b) (auto simp: py_le_def py_min_def)

lemma py_max_ge: "\<not> isnan a \<Longrightarrow> \<not> isnan b \<Longrightarrow> py_le a (py_max a b) \<and> py_le b (py_max a b)"
  by (cases a; cases b) (auto simp: py_le_def py_max_def)

lemma fold_py_min_least:
  "\<not> isnan a \<Longrightarrow> \<forall>v\<in>set xs. \<not> isnan v \<Longrightarrow>
   py_le (fold (\<lambda>v acc. py_min acc v) xs a) a
   \<and> (\<forall>v\<in>set xs. py_le (fold (\<lambda>v acc. py_min acc v) xs a) v)
   \<and> fold (\<lambda>v acc. py_min acc v) xs a \<in> insert a (set xs)"
proof (induction xs arbitrary: a)
  case Nil
  then show ?case by (simp add: py_le_refl)
next
  case (Cons x xs)
  have nn: "\<not> isnan (py_min a x)" using Cons.prems by (simp add: py_min_not_nan)
  have ih: "py_le (fold (\<lambda>v acc. py_min acc v) xs (py_min a x)) (py_min a x)"
    "\<forall>v\<in>set xs. py_le (fold (\<lambda>v acc. py_min acc v) xs (py_min a x)) v"
    "fold (\<lambda>v acc. py_min acc v) xs (py_min a x) \<in> insert (py_min a x) (set xs)"
    using Cons.IH [OF nn] Cons.prems by simp_all
  have le: "py_le (py_min a x) a" "py_le (py_min a x) x"
    using py_min_le [of a x] Cons.prems by simp_all
  have mem: "py_min a x = a \<or> py_min a x = x" by (simp add: py_min_def)
  show ?case
    using ih le mem by (auto intro: py_le_trans)
qed

lemma fold_py_max_greatest:
  "\<not> isnan a \<Longrightarrow> \<forall>v\<in>set xs. \<not> isnan v \<Longrightarrow>
   py_le a (fold (\<lambda>v acc. py_max acc v) xs a)
   \<and> (\<forall>v\<in>set xs. py_le v (fold (\<lambda>v acc. py_max acc v) xs a))
   \<and> fold (\<lambda>v acc. py_max acc v) xs a \<in> insert a (set xs)"
proof (induction xs arbitrary: a)
  case Nil
  then show ?case by (simp add: py_le_refl)
next
  case (Cons x xs)
  have nn: "\<not> isnan (py_max a x)" using Cons.prems by (simp add: py_max_not_nan)
  have ih: "py_le (py_max a x) (fold (\<lambda>v acc. py_max acc v) xs (py_max a x))"
    "\<forall>v\<in>set xs. py_le v (fold (\<lambda>v acc. py_max acc v) xs (py_max a x))"
    "fold (\<lambda>v acc. py_max acc v) xs (py_max a x) \<in> insert (py_max a x) (set xs)"
    using Cons.IH [OF nn] Cons.prems by simp_all
  have le: "py_le a (py_max a x)" "py_le x (py_max a x)"
    using py_max_ge [of a x] Cons.prems by simp_all
  have mem: "py_max a x = a \<or> py_max a x = x" by (simp add: py_max_def)
  show ?case
    using ih le mem by (auto intro: py_le_trans)
qed

lemma py_le_between_finite: "py_le (Fin a) v \<Longrightarrow> py_le v (Fin b) \<Longrightarrow> isfinite v"
  by (cases v) (simp_all add: py_le_def)

lemma py_le_PInf_finite: "py_le PInf v \<Longrightarrow> \<not> isfinite v"
  by (cases v) (simp_all add: py_le_def)

lemma py_le_NInf_finite: "py_le v NInf \<Longrightarrow> \<not> isfinite v"
  by (cases v) (simp_all add: py_le_def)

lemma extremes_finite_iff:
  assumes nn: "\<forall>v\<in>set xs. \<not> isnan v"
  shows "(isfinite (fold (\<lambda>v acc. py_min acc v) xs PInf) \<and> isfinite (fold (\<lambda>v acc. py_max acc v) xs NInf))
          = (xs \<noteq> [] \<and> list_all isfinite xs)"
proof -
  let ?lo = "fold (\<lambda>v acc. py_min acc v) xs PInf"
  let ?hi = "fold (\<lambda>v acc. py_max acc v) xs NInf"
  have lo: "\<forall>v\<in>set xs. py_le ?lo v" "?lo \<in> insert PInf (set xs)"
    using fold_py_min_least [of PInf xs] nn by simp_all
  have hi: "\<forall>v\<in>set xs. py_le v ?hi" "?hi \<in> insert NInf (set xs)"
    using fold_py_max_greatest [of NInf xs] nn by simp_all
  show ?thesis
  proof
    assume fin: "isfinite ?lo \<and> isfinite ?hi"
    then obtain a b where ab: "?lo = Fin a" "?hi = Fin b"
      by (cases ?lo; cases ?hi) simp_all
    have "xs \<noteq> []" using ab(1) by auto
    moreover have "list_all isfinite xs"
      unfolding list_all_iff using lo(1) hi(1) ab py_le_between_finite by metis
    ultimately show "xs \<noteq> [] \<and> list_all isfinite xs" by simp
  next
    assume a: "xs \<noteq> [] \<and> list_all isfinite xs"
    then obtain v where v: "v \<in> set xs" "isfinite v" by (cases xs) auto
    have "?lo \<noteq> PInf" using lo(1) v py_le_PInf_finite by metis
    then have "?lo \<in> set xs" using lo(2) by auto
    moreover have "?hi \<noteq> NInf" using hi(1) v py_le_NInf_finite by metis
    then have "?hi \<in> set xs" using hi(2) by auto
    ultimately show "isfinite ?lo \<and> isfinite ?hi" using a by (simp add: list_all_iff)
  qed
qed


section \<open>The profile viewer state: properties\<close>

lemma reset_x_limits_unfold:
  assumes "reference_data s \<noteq> None" "x_att_pixel s \<noteq> None"
  shows "reset_x_limits s =
    (if profile_x_values (layers s) \<noteq> [] \<and> list_all isfinite (profile_x_values (layers s))
     then delay_callback notify_profile [X_min, X_max]
            (\<lambda>s'. and_then
               (setattr_prop notify_profile X_min
                  (Some (fold (\<lambda>v acc. py_min acc v) (profile_x_values (layers s)) PInf)) s')
               (setattr_prop notify_profile X_max
                  (Some (fold (\<lambda>v acc. py_max acc v) (profile_x_values (layers s)) NInf)))) s
     else Some (Returned s))"
proof -
  let ?X = "profile_x_values (layers s)"
  have loop: "reset_x_limits_loop (layers s) (PInf, NInf) =
      Inr (fold (\<lambda>v acc. py_min acc v) ?X PInf, fold (\<lambda>v acc. py_max acc v) ?X NInf)"
    by (simp add: reset_x_limits_loop_fold)
  have fin: "(isfinite (fold (\<lambda>v acc. py_min acc v) ?X PInf) \<and> isfinite (fold (\<lambda>v acc. py_max acc v) ?X NInf))
      = (?X \<noteq> [] \<and> list_all isfinite ?X)"
    by (rule extremes_finite_iff [OF profile_x_values_not_nan])
  show ?thesis
  proof (cases "?X \<noteq> [] \<and> list_all isfinite ?X")
    case True
    with fin have "isfinite (fold (\<lambda>v acc. py_min acc v) ?X PInf)" "isfinite (fold (\<lambda>v acc. py_max acc v) ?X NInf)"
      by simp_all
    then show ?thesis
      using assms True unfolding reset_x_limits_def loop by auto
  next
    case False
    with fin have "\<not> (isfinite (fold (\<lambda>v acc. py_min acc v) ?X PInf) \<and> isfinite (fold (\<lambda>v acc. py_max acc v) ?X NInf))"
      by simp
    then show ?thesis
      using assms False unfolding reset_x_limits_def loop by auto
  qed
qed

lemma reset_x_limits_result:
  assumes "reference_data s \<noteq> None" "x_att_pixel s \<noteq> None"
    and "profile_x_values (layers s) \<noteq> []" "list_all isfinite (profile_x_values (layers s))"
  shows "\<exists>s'. reset_x_limits s = Some (Returned s') \<and>
     vals s' = vals (stored X_max (Some (fold (\<lambda>v acc. py_max acc v) (profile_x_values (layers s)) NInf))
                (stored X_min (Some (fold (\<lambda>v acc. py_min acc v) (profile_x_values (layers s)) PInf))
                   (delay_enter [X_min, X_max] s)))"
  using assms
  by (simp add: reset_x_limits_unfold setattr_prop_profile delay_callback_profile
        del: delay_enter.simps stored_simps)

text \<open>
  Claim C4, as amended. For a profile viewer state with reference data and a pixel
  x-attribute, whose \<open>x_min\<close> and \<open>x_max\<close> are not frozen: \<open>reset_x_limits\<close> sets \<open>x_min\<close>
  and \<open>x_max\<close> to the least and the greatest of the profile x values of all layers,
  whatever their visibility, leaving out the layers whose profile raises, is \<open>None\<close> or
  is empty, and the NaN entries; no failure is propagated. When there is no such value, or
  one of them is infinite, the call returns with the state as it was.
\<close>

theorem reset_x_limits_all_layers:
  assumes "reference_data s \<noteq> None" and "x_att_pixel s \<noteq> None" and "unfrozen s [X_min, X_max]"
  shows "(profile_x_values (layers s) \<noteq> [] \<and> list_all isfinite (profile_x_values (layers s)) \<longrightarrow>
            (\<exists>s' lo hi. reset_x_limits s = Some (Returned s')
               \<and> vals s' X_min = Some lo \<and> vals s' X_max = Some hi
               \<and> lo \<in> set (profile_x_values (layers s)) \<and> hi \<in> set (profile_x_values (layers s))
               \<and> (\<forall>v\<in>set (profile_x_values (layers s)). py_le lo v \<and> py_le v hi)
               \<and> (\<forall>p. p \<noteq> X_min \<and> p \<noteq> X_max \<longrightarrow> vals s' p = vals s p)))
       \<and> (\<not> (profile_x_values (layers s) \<noteq> [] \<and> list_all isfinite (profile_x_values (layers s))) \<longrightarrow>
            reset_x_limits s = Some (Returned s))"
proof (intro conjI impI)
  let ?X = "profile_x_values (layers s)"
  let ?lo = "fold (\<lambda>v acc. py_min acc v) ?X PInf"
  let ?hi = "fold (\<lambda>v acc. py_max acc v) ?X NInf"
  assume a: "?X \<noteq> [] \<and> list_all isfinite ?X"
  have nn: "\<forall>v\<in>set ?X. \<not> isnan v" by (rule profile_x_values_not_nan)
  have fin: "isfinite ?lo" "isfinite ?hi"
    using extremes_finite_iff [OF nn] a by simp_all
  have lo: "\<forall>v\<in>set ?X. py_le ?lo v" "?lo \<in> insert PInf (set ?X)"
    using fold_py_min_least [of PInf ?X] nn by simp_all
  have hi: "\<forall>v\<in>set ?X. py_le v ?hi" "?hi \<in> insert NInf (set ?X)"
    using fold_py_max_greatest [of NInf ?X] nn by simp_all
  have mem: "?lo \<in> set ?X" "?hi \<in> set ?X"
    using lo(2) hi(2) fin by auto
  have p: "permitted s X_min" "permitted s X_max"
    using unfrozen_permitted [OF assms(3)] by simp_all
  have p': "permitted (delay_enter [X_min, X_max] s) X_min" "permitted (delay_enter [X_min, X_max] s) X_max"
    using p by (simp_all add: permitted_def del: delay_enter.simps)
  from reset_x_limits_result [OF assms(1,2)] a obtain s' where
    s': "reset_x_limits s = Some (Returned s')"
        "vals s' = vals (stored X_max (Some ?hi) (stored X_min (Some ?lo) (delay_enter [X_min, X_max] s)))"
    by blast
  have v: "vals s' = (vals s)(X_min := Some ?lo, X_max := Some ?hi)"
    using s'(2) p' by (simp del: delay_enter.simps)
  show "\<exists>s' lo hi. reset_x_limits s = Some (Returned s')
               \<and> vals s' X_min = Some lo \<and> vals s' X_max = Some hi
               \<and> lo \<in> set ?X \<and> hi \<in> set ?X
               \<and> (\<forall>v\<in>set ?X. py_le lo v \<and> py_le v hi)
               \<and> (\<forall>p. p \<noteq> X_min \<and> p \<noteq> X_max \<longrightarrow> vals s' p = vals s p)"
    using s'(1) v mem lo(1) hi(1) by (intro exI [of _ s'] exI [of _ ?lo] exI [of _ ?hi]) simp
next
  assume "\<not> (profile_x_values (layers s) \<noteq> [] \<and> list_all isfinite (profile_x_values (layers s)))"
  then show "reset_x_limits s = Some (Returned s)"
    using reset_x_limits_unfold [OF assms(1,2)] by auto
qed


lemmas profile_eval =
  example_profile_state_def example_layer_def failing_layer_def micron_to_nm_def
  reset_x_limits_def convert_units_x_limits_def delay_callback_def delay_exit_def
  setattr_prop_def notify_profile_def observe_def limits_of_def nanmin_def nanmax_def
  py_min_def py_max_def and_then_def value_after_def trace_after_def Let_def
  setattr_reaches_super_def profile_x_values_def unfrozen_def

text \<open>
  Claim C4 as stated fails: with a single layer that is not visible but has a profile,
  no visible layer supplies an x value, and yet the limits move from \<open>(0, 0)\<close> to the
  extremes \<open>(1, 2)\<close> of that layer's profile.
\<close>

theorem reset_x_limits_visible_only_counterexample:
  "profile_x_values (filter visible (layers
       (example_profile_state (Some (Fin 0)) (Some (Fin 0)) [example_layer False [Fin 1, Fin 2]]))) = []
   \<and> value_after (reset_x_limits
       (example_profile_state (Some (Fin 0)) (Some (Fin 0)) [example_layer False [Fin 1, Fin 2]])) X_min
       = Some (Some (Fin 1))
   \<and> value_after (reset_x_limits
       (example_profile_state (Some (Fin 0)) (Some (Fin 0)) [example_layer False [Fin 1, Fin 2]])) X_max
       = Some (Some (Fin 2))"
  by (simp add: profile_eval)

theorem reset_x_limits_all_layers_witness:
  "value_after (reset_x_limits (example_profile_state (Some (Fin 0)) (Some (Fin 0))
       [failing_layer, example_layer True [Fin 3, NaN, Fin 1], example_layer False [Fin 7]])) X_min
     = Some (Some (Fin 1))
   \<and> value_after (reset_x_limits (example_profile_state (Some (Fin 0)) (Some (Fin 0))
       [failing_layer, example_layer True [Fin 3, NaN, Fin 1], example_layer False [Fin 7]])) X_max
     = Some (Some (Fin 7))
   \<and> reset_x_limits (example_profile_state (Some (Fin 0)) (Some (Fin 0)) [failing_layer])
     = Some (Returned (example_profile_state (Some (Fin 0)) (Some (Fin 0)) [failing_layer]))"
proof -
  let ?s = "example_profile_state (Some (Fin 0)) (Some (Fin 0))
       [failing_layer, example_layer True [Fin 3, NaN, Fin 1], example_layer False [Fin 7]]"
  let ?t = "example_profile_state (Some (Fin 0)) (Some (Fin 0)) [failing_layer]"
  have X: "profile_x_values (layers ?s) = [Fin 3, Fin 1, Fin 7]"
    by (simp add: profile_eval)
  have pre: "reference_data ?s \<noteq> None" "x_att_pixel ?s \<noteq> None" "unfrozen ?s [X_min, X_max]"
    by (simp_all add: profile_eval)
  from reset_x_limits_all_layers [OF pre] X obtain s' lo hi where
    r: "reset_x_limits ?s = Some (Returned s')" "vals s' X_min = Some lo" "vals s' X_max = Some hi"
       "lo \<in> {Fin 3, Fin 1, Fin 7}" "hi \<in> {Fin 3, Fin 1, Fin 7}"
       "py_le lo (Fin 1)" "py_le (Fin 7) hi"
    by auto
  have "lo = Fin 1" "hi = Fin 7"
    using r(4-7) by (auto simp: py_le_def)
  then have a: "value_after (reset_x_limits ?s) X_min = Some (Some (Fin 1))"
    "value_after (reset_x_limits ?s) X_max = Some (Some (Fin 7))"
    using r(1-3) by (simp_all add: value_after_def)
  have Xt: "profile_x_values (layers ?t) = []"
    by (simp add: profile_eval)
  have pret: "reference_data ?t \<noteq> None" "x_att_pixel ?t \<noteq> None" "unfrozen ?t [X_min, X_max]"
    by (simp_all add: profile_eval)
  have b: "reset_x_limits ?t = Some (Returned ?t)"
    using reset_x_limits_all_layers [OF pret] Xt by simp
  from a b show ?thesis by blast
qed

text \<open>
  Claim C3 as stated fails when a limit is null: \<open>convert_units_x_limits\<close> returns at
  once, while \<open>reset_x_limits\<close> sets the limits from the layer.
\<close>

theorem convert_units_x_limits_null_limit_counterexample:
  "convert_units_x_limits micron_to_nm (example_profile_state None None [example_layer True [Fin 1, Fin 2]])
       None (Some ''nm'')
     = Some (Returned (example_profile_state None None [example_layer True [Fin 1, Fin 2]]))
   \<and> value_after (reset_x_limits (example_profile_state None None [example_layer True [Fin 1, Fin 2]])) X_min
     = Some (Some (Fin 1))
   \<and> convert_units_x_limits micron_to_nm (example_profile_state None None [example_layer True [Fin 1, Fin 2]])
       None (Some ''nm'')
     \<noteq> reset_x_limits (example_profile_state None None [example_layer True [Fin 1, Fin 2]])"
proof -
  let ?s = "example_profile_state None None [example_layer True [Fin 1, Fin 2]]"
  have a: "convert_units_x_limits micron_to_nm ?s None (Some ''nm'') = Some (Returned ?s)"
    by (simp add: convert_units_x_limits_def example_profile_state_def)
  have b: "value_after (reset_x_limits ?s) X_min = Some (Some (Fin 1))"
    by (simp add: profile_eval)
  have "vals ?s X_min = None" by (simp add: example_profile_state_def)
  then have "value_after (Some (Returned ?s)) X_min \<noteq> value_after (reset_x_limits ?s) X_min"
    unfolding b by (simp add: value_after_def)
  then have c: "convert_units_x_limits micron_to_nm ?s None (Some ''nm'') \<noteq> reset_x_limits ?s"
    unfolding a by auto
  from a b c show ?thesis by blast
qed

text \<open>
  Claim C3, as amended. With a null old unit, \<open>convert_units_x_limits\<close> gives exactly the
  outcome of \<open>reset_x_limits\<close> when \<open>x_min\<close> and \<open>x_max\<close> are both set; when one of them
  is null it returns with the state as it was.
\<close>

theorem convert_units_x_limits_null_unit:
  "(vals s X_min \<noteq> None \<and> vals s X_max \<noteq> None \<longrightarrow>
      convert_units_x_limits conv s None new_unit = reset_x_limits s)
   \<and> (vals s X_min = None \<or> vals s X_max = None \<longrightarrow>
      convert_units_x_limits conv s None new_unit = Some (Returned s))"
  by (auto simp: convert_units_x_limits_def)

theorem convert_units_x_limits_null_unit_witness:
  "convert_units_x_limits micron_to_nm
      (example_profile_state (Some (Fin 0)) (Some (Fin 9)) [example_layer True [Fin 1, Fin 2]]) None (Some ''nm'')
     = reset_x_limits (example_profile_state (Some (Fin 0)) (Some (Fin 9)) [example_layer True [Fin 1, Fin 2]])
   \<and> value_after (convert_units_x_limits micron_to_nm
      (example_profile_state (Some (Fin 0)) (Some (Fin 9)) [example_layer True [Fin 1, Fin 2]]) None (Some ''nm'')) X_max
     = Some (Some (Fin 2))
   \<and> convert_units_x_limits micron_to_nm
      (example_profile_state None (Some (Fin 9)) [example_layer True [Fin 1, Fin 2]]) None (Some ''nm'')
     = Some (Returned (example_profile_state None (Some (Fin 9)) [example_layer True [Fin 1, Fin 2]]))"
proof -
  let ?s = "example_profile_state (Some (Fin 0)) (Some (Fin 9)) [example_layer True [Fin 1, Fin 2]]"
  let ?t = "example_profile_state None (Some (Fin 9)) [example_layer True [Fin 1, Fin 2]]"
  have s: "vals ?s X_min \<noteq> None \<and> vals ?s X_max \<noteq> None" by (simp add: example_profile_state_def)
  have t: "vals ?t X_min = None \<or> vals ?t X_max = None" by (simp add: example_profile_state_def)
  have a: "convert_units_x_limits micron_to_nm ?s None (Some ''nm'') = reset_x_limits ?s"
    using convert_units_x_limits_null_unit [of ?s micron_to_nm "Some ''nm''"] s by blast
  have b: "value_after (reset_x_limits ?s) X_max = Some (Some (Fin 2))"
    by (simp add: profile_eval)
  have c: "convert_units_x_limits micron_to_nm ?t None (Some ''nm'') = Some (Returned ?t)"
    using convert_units_x_limits_null_unit [of ?t micron_to_nm "Some ''nm''"] t by blast
  from a b c show ?thesis by simp
qed

text \<open>
  Claim C9 at a failing input: converting the limits \<open>(1, 2)\<close> from microns to
  nanometres, the observers of \<open>x_min\<close> are called while the state holds the limits
  \<open>(1000, 2)\<close>: the new \<open>x_min\<close> next to the old \<open>x_max\<close>.
\<close>

theorem convert_units_x_limits_observed_between_writes:
  "trace_after (convert_units_x_limits micron_to_nm
      (example_profile_state (Some (Fin 1)) (Some (Fin 2)) []) (Some ''um'') (Some ''nm''))
     = Some [Notify X_min (Some (Fin 1000), Some (Fin 2), None, None),
             Notify X_max (Some (Fin 1000), Some (Fin 2000), None, None)]"
  by (simp add: profile_eval)

section \<open>Facts about the zoom synchronisation\<close>

lemma observe_image_simps [simp]:
  "during_zoom_sync_flag (observe p s) = during_zoom_sync_flag s"
  "viewer (observe p s) = viewer s"
  "linked_by_wcs (observe p s) = linked_by_wcs s"
  by (simp_all add: observe_def)

lemma stored_image_simps [simp]:
  "during_zoom_sync_flag (stored p v s) = during_zoom_sync_flag s"
  "viewer (stored p v s) = viewer s"
  "linked_by_wcs (stored p v s) = linked_by_wcs s"
  by (simp_all add: stored_def)

lemma fold_observe_image_simps [simp]:
  "during_zoom_sync_flag (fold observe ns s) = during_zoom_sync_flag s"
  "viewer (fold observe ns s) = viewer s"
  "linked_by_wcs (fold observe ns s) = linked_by_wcs s"
  by (induction ns arbitrary: s) simp_all

lemma delay_enter_image_simps [simp]:
  "during_zoom_sync_flag (delay_enter ps s) = during_zoom_sync_flag s"
  "viewer (delay_enter ps s) = viewer s"
  "linked_by_wcs (delay_enter ps s) = linked_by_wcs s"
  by (induction ps arbitrary: s) simp_all

lemma delay_exit_loop_image_simps [simp]:
  "during_zoom_sync_flag (snd (delay_exit_loop ps acc)) = during_zoom_sync_flag (snd acc)"
  "viewer (snd (delay_exit_loop ps acc)) = viewer (snd acc)"
  "linked_by_wcs (snd (delay_exit_loop ps acc)) = linked_by_wcs (snd acc)"
  by (induction ps acc rule: delay_exit_loop.induct) simp_all

lemma delay_exit_image_simps [simp]:
  "during_zoom_sync_flag (snd (delay_exit ps s)) = during_zoom_sync_flag s"
  "viewer (snd (delay_exit ps s)) = viewer s"
  "linked_by_wcs (snd (delay_exit ps s)) = linked_by_wcs s"
  by (simp_all add: delay_exit_def)

lemma assigned_simps [simp]:
  "frozen_state (assigned lims s) = frozen_state s"
  "delay_count (assigned lims s) = delay_count s"
  "during_zoom_sync_flag (assigned lims s) = during_zoom_sync_flag s"
  "viewer (assigned lims s) = viewer s"
  "linked_by_wcs (assigned lims s) = linked_by_wcs s"
  by (simp_all add: assigned_def split: prod.split)

lemma batch_assigned_simps [simp]:
  "frozen_state (batch_assigned lims s) = frozen_state s"
  "during_zoom_sync_flag (batch_assigned lims s) = during_zoom_sync_flag s"
  "viewer (batch_assigned lims s) = viewer s"
  "linked_by_wcs (batch_assigned lims s) = linked_by_wcs s"
  "vals (batch_assigned lims s) = vals (assigned lims (delay_enter [X_min, X_max, Y_min, Y_max] s))"
proof -
  let ?s1 = "assigned lims (delay_enter [X_min, X_max, Y_min, Y_max] s)"
  obtain ns s' where ex: "delay_exit [X_min, X_max, Y_min, Y_max] ?s1 = (ns, s')"
    by (cases "delay_exit [X_min, X_max, Y_min, Y_max] ?s1")
  have s': "s' = snd (delay_exit [X_min, X_max, Y_min, Y_max] ?s1)" using ex by simp
  have b: "batch_assigned lims s = fold observe ns s'"
    using ex by (simp add: batch_assigned_def)
  show "frozen_state (batch_assigned lims s) = frozen_state s"
    "during_zoom_sync_flag (batch_assigned lims s) = during_zoom_sync_flag s"
    "viewer (batch_assigned lims s) = viewer s"
    "linked_by_wcs (batch_assigned lims s) = linked_by_wcs s"
    "vals (batch_assigned lims s) = vals ?s1"
    unfolding b s' by (simp_all del: delay_enter.simps)
qed

lemma handlers_guarded:
  "during_zoom_sync_flag s \<Longrightarrow> set_zoom_radius_center adj nt s = Some (Returned s)"
  "during_zoom_sync_flag s \<Longrightarrow> set_axes_lim nt s = Some (Returned s)"
  by (simp_all add: set_zoom_radius_center_def set_axes_lim_def)

lemma quiet_notify_image: "quiet (notify_image (Suc n) adj)"
  by (simp add: quiet_def handlers_guarded)

lemma quiet_observers_only: "quiet observers_only"
  by (simp add: quiet_def observers_only_def)

lemma setattr_prop_quiet:
  "quiet nt \<Longrightarrow> during_zoom_sync_flag s \<Longrightarrow> setattr_prop nt p v s = Some (Returned (stored p v s))"
  by (simp add: setattr_prop_def stored_def permitted_def Let_def quiet_def)

lemma assign_limits_quiet:
  "quiet nt \<Longrightarrow> during_zoom_sync_flag s \<Longrightarrow> assign_limits nt lims s = Some (Returned (assigned lims s))"
  by (cases lims) (simp add: assign_limits_def assigned_def setattr_prop_quiet)

lemma notify_all_quiet:
  "quiet nt \<Longrightarrow> during_zoom_sync_flag s \<Longrightarrow> notify_all nt ns s = Some (Returned (fold observe ns s))"
  by (induction ns arbitrary: s) (simp_all add: quiet_def)

lemma adjust_limits_aspect_quiet:
  assumes "quiet nt" "during_zoom_sync_flag s"
  shows "adjust_limits_aspect adj nt s =
     (case adj (limits_of s) of
        Inl e \<Rightarrow> Some (Raised e s)
      | Inr None \<Rightarrow> Some (Returned s)
      | Inr (Some lims) \<Rightarrow> Some (Returned (batch_assigned lims s)))"
proof (cases "adj (limits_of s)")
  case (Inl e)
  then show ?thesis by (simp add: adjust_limits_aspect_def)
next
  case (Inr lo)
  show ?thesis
  proof (cases lo)
    case None
    with Inr show ?thesis by (simp add: adjust_limits_aspect_def)
  next
    case (Some lims)
    let ?ps = "[X_min, X_max, Y_min, Y_max]"
    let ?s1 = "assigned lims (delay_enter ?ps s)"
    have f: "during_zoom_sync_flag (delay_enter ?ps s)"
      using assms(2) by (simp del: delay_enter.simps)
    have body: "assign_limits nt lims (delay_enter ?ps s) = Some (Returned ?s1)"
      using assign_limits_quiet [OF assms(1) f] .
    obtain ns s' where ex: "delay_exit ?ps ?s1 = (ns, s')" by (cases "delay_exit ?ps ?s1")
    have "s' = snd (delay_exit ?ps ?s1)" using ex by simp
    then have f': "during_zoom_sync_flag s'" using f by (simp del: delay_enter.simps)
    have "delay_callback nt ?ps (assign_limits nt lims) s = Some (Returned (fold observe ns s'))"
      using body ex notify_all_quiet [OF assms(1) f'] by (simp add: delay_callback_def del: delay_enter.simps)
    then show ?thesis
      using Inr Some ex by (simp add: adjust_limits_aspect_def batch_assigned_def del: delay_enter.simps)
  qed
qed

lemma set_zoom_radius_center_quiet:
  assumes "quiet nt" "\<not> during_zoom_sync_flag s" "viewer s \<noteq> None"
  shows "set_zoom_radius_center adj nt s =
    (case zoom_circle_in_pixels s of
       Inl e \<Rightarrow> Some (Raised e s)
     | Inr (center_x, center_y, radius) \<Rightarrow>
         (case zoom_box center_x center_y radius of
            Inl e \<Rightarrow> Some (Raised e (s\<lparr>during_zoom_sync_flag := False\<rparr>))
          | Inr lims \<Rightarrow>
              (case adj (limits_of (assigned lims (s\<lparr>during_zoom_sync_flag := True\<rparr>))) of
                 Inl e \<Rightarrow> Some (Raised e ((assigned lims (s\<lparr>during_zoom_sync_flag := True\<rparr>))\<lparr>during_zoom_sync_flag := False\<rparr>))
               | Inr None \<Rightarrow> Some (Returned ((assigned lims (s\<lparr>during_zoom_sync_flag := True\<rparr>))\<lparr>during_zoom_sync_flag := False\<rparr>))
               | Inr (Some l) \<Rightarrow>
                   Some (Returned ((batch_assigned l (assigned lims (s\<lparr>during_zoom_sync_flag := True\<rparr>)))\<lparr>during_zoom_sync_flag := False\<rparr>)))))"
proof (cases "zoom_circle_in_pixels s")
  case (Inl e)
  with assms show ?thesis by (auto simp: set_zoom_radius_center_def try_value_def)
next
  case (Inr c)
  obtain cx cy r where c: "c = (cx, cy, r)" by (cases c)
  let ?s0 = "s\<lparr>during_zoom_sync_flag := True\<rparr>"
  show ?thesis
  proof (cases "zoom_box cx cy r")
    case (Inl e)
    with Inr c assms show ?thesis
      by (auto simp: set_zoom_radius_center_def try_value_def during_zoom_sync_def)
  next
    case box: (Inr lims)
    have f: "during_zoom_sync_flag ?s0" by simp
    have f1: "during_zoom_sync_flag (assigned lims ?s0)" by simp
    have body: "and_then (assign_limits nt lims ?s0) (adjust_limits_aspect adj nt)
                 = adjust_limits_aspect adj nt (assigned lims ?s0)"
      using assign_limits_quiet [OF assms(1) f] by (simp add: and_then_def)
    show ?thesis
      using Inr c box assms(2,3) body adjust_limits_aspect_quiet [OF assms(1) f1, of adj]
      by (auto simp: set_zoom_radius_center_def try_value_def during_zoom_sync_def
            split: sum.splits option.splits)
  qed
qed


lemma set_axes_lim_quiet:
  assumes "quiet nt" "\<not> during_zoom_sync_flag s" "viewer s \<noteq> None"
  shows "set_axes_lim nt s =
    (case limits_of s of
       (Some x_min0, Some x_max0, Some y_min0, Some y_max0) \<Rightarrow>
         (case limits_in_axes_units s (x_min0, x_max0, y_min0, y_max0) of
            Inl e \<Rightarrow> Some (Raised e s)
          | Inr (x_min, x_max, y_min, y_max) \<Rightarrow>
              Some (Returned
                ((stored Zoom_center_y (Some (py_half (py_add y_max y_min)))
                   (stored Zoom_center_x (Some (py_half (py_add x_max x_min)))
                     (stored Zoom_radius (Some (py_abs (py_half (py_min (py_sub x_max x_min) (py_sub y_max y_min)))))
                       (s\<lparr>during_zoom_sync_flag := True\<rparr>))))\<lparr>during_zoom_sync_flag := False\<rparr>)))
     | _ \<Rightarrow> Some (Returned s))"
  using assms
  by (auto simp: set_axes_lim_def try_value_def during_zoom_sync_def setattr_prop_quiet
        split: prod.splits option.splits sum.splits)

lemma set_zoom_radius_center_image:
  assumes "\<not> during_zoom_sync_flag s" "viewer s \<noteq> None"
  shows "set_zoom_radius_center adj (notify_image (Suc n) adj') s =
    (case zoom_circle_in_pixels s of
       Inl e \<Rightarrow> Some (Raised e s)
     | Inr (center_x, center_y, radius) \<Rightarrow>
         (case zoom_box center_x center_y radius of
            Inl e \<Rightarrow> Some (Raised e (s\<lparr>during_zoom_sync_flag := False\<rparr>))
          | Inr lims \<Rightarrow>
              (case adj (limits_of (assigned lims (s\<lparr>during_zoom_sync_flag := True\<rparr>))) of
                 Inl e \<Rightarrow> Some (Raised e ((assigned lims (s\<lparr>during_zoom_sync_flag := True\<rparr>))\<lparr>during_zoom_sync_flag := False\<rparr>))
               | Inr None \<Rightarrow> Some (Returned ((assigned lims (s\<lparr>during_zoom_sync_flag := True\<rparr>))\<lparr>during_zoom_sync_flag := False\<rparr>))
               | Inr (Some l) \<Rightarrow>
                   Some (Returned ((batch_assigned l (assigned lims (s\<lparr>during_zoom_sync_flag := True\<rparr>)))\<lparr>during_zoom_sync_flag := False\<rparr>)))))"
  by (rule set_zoom_radius_center_quiet [OF quiet_notify_image assms])

lemma set_axes_lim_image:
  assumes "\<not> during_zoom_sync_flag s" "viewer s \<noteq> None"
  shows "set_axes_lim (notify_image (Suc n) adj) s =
    (case limits_of s of
       (Some x_min0, Some x_max0, Some y_min0, Some y_max0) \<Rightarrow>
         (case limits_in_axes_units s (x_min0, x_max0, y_min0, y_max0) of
            Inl e \<Rightarrow> Some (Raised e s)
          | Inr (x_min, x_max, y_min, y_max) \<Rightarrow>
              Some (Returned
                ((stored Zoom_center_y (Some (py_half (py_add y_max y_min)))
                   (stored Zoom_center_x (Some (py_half (py_add x_max x_min)))
                     (stored Zoom_radius (Some (py_abs (py_half (py_min (py_sub x_max x_min) (py_sub y_max y_min)))))
                       (s\<lparr>during_zoom_sync_flag := True\<rparr>))))\<lparr>during_zoom_sync_flag := False\<rparr>)))
     | _ \<Rightarrow> Some (Returned s))"
  by (rule set_axes_lim_quiet [OF quiet_notify_image assms])

lemma limits_of_assigned:
  "permitted s X_min \<Longrightarrow> permitted s X_max \<Longrightarrow> permitted s Y_min \<Longrightarrow> permitted s Y_max \<Longrightarrow>
   limits_of (assigned lims s) = lims"
  by (cases lims) (simp add: limits_of_def assigned_def)

lemma limits_in_axes_units_unlinked:
  "\<not> linked_by_wcs s \<Longrightarrow> limits_in_axes_units s lims = Inr lims"
  by (cases lims) (simp add: limits_in_axes_units_def)

lemma permitted_flag [simp]:
  "permitted (s\<lparr>during_zoom_sync_flag := b\<rparr>) p = permitted s p"
  by (simp add: permitted_def)

section \<open>The image viewer state: properties\<close>

text \<open>
  Claim C2. On an attached image state that is not linked by WCS and not inside a zoom
  synchronisation, with \<open>x_min = 0\<close>, \<open>x_max = 10\<close>, \<open>y_min = 0\<close>, \<open>y_max = 4\<close> (zoom
  properties not frozen), \<open>set_axes_lim\<close> returns with \<open>zoom_center_x = 5\<close>,
  \<open>zoom_center_y = 2\<close> and \<open>zoom_radius = 2\<close>. On such a state with those zoom values
  (limits not frozen), \<open>set_zoom_radius_center\<close> returns with \<open>x_min = 3\<close>, \<open>x_max = 7\<close>,
  \<open>y_min = 0\<close>, \<open>y_max = 4\<close>, the aspect adjustment finding nothing to change at that box.
\<close>

theorem zoom_limit_round_trip:
  assumes "viewer s \<noteq> None" and "\<not> linked_by_wcs s" and "\<not> during_zoom_sync_flag s"
    and "unfrozen s [Zoom_radius, Zoom_center_x, Zoom_center_y]"
    and "limits_of s = (Some (Fin 0), Some (Fin 10), Some (Fin 0), Some (Fin 4))"
    and "viewer t \<noteq> None" and "\<not> linked_by_wcs t" and "\<not> during_zoom_sync_flag t"
    and "unfrozen t [X_min, X_max, Y_min, Y_max]"
    and "vals t Zoom_center_x = Some (Fin 5)" and "vals t Zoom_center_y = Some (Fin 2)"
    and "vals t Zoom_radius = Some (Fin 2)"
    and "adj (Some (Fin 3), Some (Fin 7), Some (Fin 0), Some (Fin 4)) = Inr None"
  shows "(\<exists>s'. set_axes_lim (notify_image (Suc n) adj) s = Some (Returned s')
            \<and> vals s' Zoom_center_x = Some (Fin 5) \<and> vals s' Zoom_center_y = Some (Fin 2)
            \<and> vals s' Zoom_radius = Some (Fin 2))
       \<and> (\<exists>t'. set_zoom_radius_center adj (notify_image (Suc n) adj) t = Some (Returned t')
            \<and> limits_of t' = (Some (Fin 3), Some (Fin 7), Some (Fin 0), Some (Fin 4)))"
proof
  have p: "permitted s Zoom_radius" "permitted s Zoom_center_x" "permitted s Zoom_center_y"
    using unfrozen_permitted [OF assms(4)] by simp_all
  show "\<exists>s'. set_axes_lim (notify_image (Suc n) adj) s = Some (Returned s')
            \<and> vals s' Zoom_center_x = Some (Fin 5) \<and> vals s' Zoom_center_y = Some (Fin 2)
            \<and> vals s' Zoom_radius = Some (Fin 2)"
    using set_axes_lim_image [OF assms(3,1), of n adj] assms(2,5) p
    by (simp add: limits_in_axes_units_unlinked py_sub_def py_min_def)
next
  let ?lims = "(Some (Fin 3), Some (Fin 7), Some (Fin 0), Some (Fin 4))"
  have p: "permitted t X_min" "permitted t X_max" "permitted t Y_min" "permitted t Y_max"
    using unfrozen_permitted [OF assms(9)] by simp_all
  have circle: "zoom_circle_in_pixels t = Inr (Some (Fin 5), Some (Fin 2), Fin 2)"
    using assms(7,10,11,12) by (simp add: zoom_circle_in_pixels_def bind_err_def as_float_def)
  have box: "zoom_box (Some (Fin 5)) (Some (Fin 2)) (Fin 2) = Inr ?lims"
    by (simp add: zoom_box_def bind_err_def as_float_def py_sub_def)
  have lim: "limits_of (assigned ?lims (t\<lparr>during_zoom_sync_flag := True\<rparr>)) = ?lims"
    using p by (intro limits_of_assigned) simp_all
  have "set_zoom_radius_center adj (notify_image (Suc n) adj) t =
      Some (Returned ((assigned ?lims (t\<lparr>during_zoom_sync_flag := True\<rparr>))\<lparr>during_zoom_sync_flag := False\<rparr>))"
    using set_zoom_radius_center_image [OF assms(8,6), of adj n adj] circle box lim assms(13)
    by simp
  moreover have "limits_of ((assigned ?lims (t\<lparr>during_zoom_sync_flag := True\<rparr>))\<lparr>during_zoom_sync_flag := False\<rparr>) = ?lims"
    using lim by (simp add: limits_of_def)
  ultimately show "\<exists>t'. set_zoom_radius_center adj (notify_image (Suc n) adj) t = Some (Returned t')
            \<and> limits_of t' = ?lims"
    by blast
qed


lemmas image_example_eval =
  example_image_state_def no_adjust_def failing_adjust_def unfrozen_def limits_of_def

theorem zoom_limit_round_trip_witness:
  "value_after (set_axes_lim (notify_image (Suc 0) no_adjust)
       (example_image_state (Some (Fin 0), Some (Fin 10), Some (Fin 0), Some (Fin 4))
          (Some (Fin 1), Some (Fin 0), Some (Fin 0)))) Zoom_center_x = Some (Some (Fin 5))
   \<and> value_after (set_axes_lim (notify_image (Suc 0) no_adjust)
       (example_image_state (Some (Fin 0), Some (Fin 10), Some (Fin 0), Some (Fin 4))
          (Some (Fin 1), Some (Fin 0), Some (Fin 0)))) Zoom_center_y = Some (Some (Fin 2))
   \<and> value_after (set_axes_lim (notify_image (Suc 0) no_adjust)
       (example_image_state (Some (Fin 0), Some (Fin 10), Some (Fin 0), Some (Fin 4))
          (Some (Fin 1), Some (Fin 0), Some (Fin 0)))) Zoom_radius = Some (Some (Fin 2))
   \<and> value_after (set_zoom_radius_center no_adjust (notify_image (Suc 0) no_adjust)
       (example_image_state (Some (Fin 0), Some (Fin 10), Some (Fin 0), Some (Fin 4))
          (Some (Fin 2), Some (Fin 5), Some (Fin 2)))) X_min = Some (Some (Fin 3))
   \<and> value_after (set_zoom_radius_center no_adjust (notify_image (Suc 0) no_adjust)
       (example_image_state (Some (Fin 0), Some (Fin 10), Some (Fin 0), Some (Fin 4))
          (Some (Fin 2), Some (Fin 5), Some (Fin 2)))) X_max = Some (Some (Fin 7))"
proof -
  let ?s = "example_image_state (Some (Fin 0), Some (Fin 10), Some (Fin 0), Some (Fin 4))
          (Some (Fin 1), Some (Fin 0), Some (Fin 0))"
  let ?t = "example_image_state (Some (Fin 0), Some (Fin 10), Some (Fin 0), Some (Fin 4))
          (Some (Fin 2), Some (Fin 5), Some (Fin 2))"
  have s: "viewer ?s \<noteq> None" "\<not> linked_by_wcs ?s" "\<not> during_zoom_sync_flag ?s"
    "unfrozen ?s [Zoom_radius, Zoom_center_x, Zoom_center_y]"
    "limits_of ?s = (Some (Fin 0), Some (Fin 10), Some (Fin 0), Some (Fin 4))"
    by (simp_all add: image_example_eval)
  have t: "viewer ?t \<noteq> None" "\<not> linked_by_wcs ?t" "\<not> during_zoom_sync_flag ?t"
    "unfrozen ?t [X_min, X_max, Y_min, Y_max]"
    "vals ?t Zoom_center_x = Some (Fin 5)" "vals ?t Zoom_center_y = Some (Fin 2)"
    "vals ?t Zoom_radius = Some (Fin 2)"
    "no_adjust (Some (Fin 3), Some (Fin 7), Some (Fin 0), Some (Fin 4)) = Inr None"
    by (simp_all add: image_example_eval)
  from zoom_limit_round_trip [where adj = no_adjust and n = 0, OF s t] obtain s' t' where
    "set_axes_lim (notify_image (Suc 0) no_adjust) ?s = Some (Returned s')"
    "vals s' Zoom_center_x = Some (Fin 5)" "vals s' Zoom_center_y = Some (Fin 2)"
    "vals s' Zoom_radius = Some (Fin 2)"
    "set_zoom_radius_center no_adjust (notify_image (Suc 0) no_adjust) ?t = Some (Returned t')"
    "limits_of t' = (Some (Fin 3), Some (Fin 7), Some (Fin 0), Some (Fin 4))"
    by blast
  then show ?thesis
    by (simp add: value_after_def limits_of_def)
qed

text \<open>
  Claim C5. When \<open>set_zoom_radius_center\<close> gets as far as the aspect adjustment (the call
  is not inside a synchronisation, a viewer is attached, the zoom circle and the box
  around it are computed) and the adjustment raises \<open>e\<close> on the limits the state then
  holds, the call ends by raising that same \<open>e\<close>, and \<open>_during_zoom_sync\<close> is false
  afterwards.
\<close>

theorem zoom_sync_flag_cleared_on_error:
  assumes "\<not> during_zoom_sync_flag s" and "viewer s \<noteq> None"
    and "zoom_circle_in_pixels s = Inr (center_x, center_y, radius)"
    and "zoom_box center_x center_y radius = Inr lims"
    and "adj (limits_of (assigned lims (s\<lparr>during_zoom_sync_flag := True\<rparr>))) = Inl e"
  shows "(\<exists>s'. set_zoom_radius_center adj (notify_image (Suc n) adj) s = Some (Raised e s')
            \<and> \<not> during_zoom_sync_flag s')"
  using set_zoom_radius_center_image [OF assms(1,2), of adj n adj] assms(3,4,5)
  by simp

theorem zoom_sync_flag_cleared_on_error_witness:
  "(\<exists>s'. set_zoom_radius_center failing_adjust (notify_image (Suc 0) failing_adjust)
       (example_image_state (Some (Fin 0), Some (Fin 10), Some (Fin 0), Some (Fin 4))
          (Some (Fin 2), Some (Fin 5), Some (Fin 2)))
       = Some (Raised (ExternalError ''aspect'') s') \<and> \<not> during_zoom_sync_flag s')"
proof -
  let ?t = "example_image_state (Some (Fin 0), Some (Fin 10), Some (Fin 0), Some (Fin 4))
          (Some (Fin 2), Some (Fin 5), Some (Fin 2))"
  let ?lims = "(Some (Fin 3), Some (Fin 7), Some (Fin 0), Some (Fin 4))"
  have t: "\<not> during_zoom_sync_flag ?t" "viewer ?t \<noteq> None"
    by (simp_all add: image_example_eval)
  have circle: "zoom_circle_in_pixels ?t = Inr (Some (Fin 5), Some (Fin 2), Fin 2)"
    by (simp add: zoom_circle_in_pixels_def bind_err_def as_float_def image_example_eval)
  have box: "zoom_box (Some (Fin 5)) (Some (Fin 2)) (Fin 2) = Inr ?lims"
    by (simp add: zoom_box_def bind_err_def as_float_def py_sub_def)
  have adj: "failing_adjust (limits_of (assigned ?lims (?t\<lparr>during_zoom_sync_flag := True\<rparr>)))
      = Inl (ExternalError ''aspect'')"
    by (simp add: failing_adjust_def)
  from zoom_sync_flag_cleared_on_error [where adj = failing_adjust and n = 0, OF t circle box adj] show ?thesis .
qed


lemma set_zoom_radius_center_quiet_eq:
  assumes "quiet nt"
  shows "set_zoom_radius_center adj nt s = set_zoom_radius_center adj observers_only s"
proof (cases "during_zoom_sync_flag s \<or> viewer s = None")
  case True
  then show ?thesis by (auto simp: set_zoom_radius_center_def)
next
  case False
  then have a: "\<not> during_zoom_sync_flag s" "viewer s \<noteq> None" by simp_all
  show ?thesis
    unfolding set_zoom_radius_center_quiet [OF assms a]
      set_zoom_radius_center_quiet [OF quiet_observers_only a] ..
qed

lemma set_axes_lim_quiet_eq:
  assumes "quiet nt"
  shows "set_axes_lim nt s = set_axes_lim observers_only s"
proof (cases "during_zoom_sync_flag s \<or> viewer s = None")
  case True
  then show ?thesis by (auto simp: set_axes_lim_def)
next
  case False
  then have a: "\<not> during_zoom_sync_flag s" "viewer s \<noteq> None" by simp_all
  show ?thesis
    unfolding set_axes_lim_quiet [OF assms a] set_axes_lim_quiet [OF quiet_observers_only a] ..
qed

lemma set_zoom_radius_center_observers_returns:
  "set_zoom_radius_center adj observers_only s \<noteq> None"
proof (cases "during_zoom_sync_flag s \<or> viewer s = None")
  case True
  then show ?thesis by (auto simp: set_zoom_radius_center_def)
next
  case False
  then have a: "\<not> during_zoom_sync_flag s" "viewer s \<noteq> None" by simp_all
  show ?thesis
    unfolding set_zoom_radius_center_quiet [OF quiet_observers_only a]
    by (simp split: sum.split prod.split option.split)
qed

lemma set_axes_lim_observers_returns:
  "set_axes_lim observers_only s \<noteq> None"
proof (cases "during_zoom_sync_flag s \<or> viewer s = None")
  case True
  then show ?thesis by (auto simp: set_axes_lim_def)
next
  case False
  then have a: "\<not> during_zoom_sync_flag s" "viewer s \<noteq> None" by simp_all
  show ?thesis
    unfolding set_axes_lim_quiet [OF quiet_observers_only a]
    by (simp split: sum.split prod.split option.split)
qed

text \<open>
  Claim C6. While \<open>_during_zoom_sync\<close> is true both handlers return at once with the
  state untouched, whatever the notifier. Hence \<open>set_zoom_radius_center\<close> and
  \<open>set_axes_lim\<close> return for every state with callbacks nested one level deep only (a
  deeper budget changes nothing), and with the same outcome as if the notifications they
  cause ran no handler at all: the handler of the other representation is entered, finds
  the flag set and does nothing.
\<close>

theorem zoom_sync_no_reentry:
  "(during_zoom_sync_flag s \<longrightarrow>
      set_zoom_radius_center adj notify s = Some (Returned s) \<and> set_axes_lim notify s = Some (Returned s))
   \<and> set_zoom_radius_center adj (notify_image (Suc n) adj) s \<noteq> None
   \<and> set_zoom_radius_center adj (notify_image (Suc n) adj) s = set_zoom_radius_center adj (notify_image (Suc 0) adj) s
   \<and> set_zoom_radius_center adj (notify_image (Suc n) adj) s = set_zoom_radius_center adj observers_only s
   \<and> set_axes_lim (notify_image (Suc n) adj) s \<noteq> None
   \<and> set_axes_lim (notify_image (Suc n) adj) s = set_axes_lim (notify_image (Suc 0) adj) s
   \<and> set_axes_lim (notify_image (Suc n) adj) s = set_axes_lim observers_only s"
proof -
  have z: "set_zoom_radius_center adj (notify_image (Suc m) adj) s = set_zoom_radius_center adj observers_only s" for m
    by (rule set_zoom_radius_center_quiet_eq [OF quiet_notify_image])
  have a: "set_axes_lim (notify_image (Suc m) adj) s = set_axes_lim observers_only s" for m
    by (rule set_axes_lim_quiet_eq [OF quiet_notify_image])
  show ?thesis
    unfolding z a
    using set_zoom_radius_center_observers_returns [of adj s] set_axes_lim_observers_returns [of s]
    by (simp add: handlers_guarded)
qed


theorem zoom_sync_no_reentry_witness:
  "set_zoom_radius_center no_adjust (notify_image 0 no_adjust)
      ((example_image_state (Some (Fin 0), Some (Fin 10), Some (Fin 0), Some (Fin 4))
          (Some (Fin 2), Some (Fin 5), Some (Fin 2)))\<lparr>during_zoom_sync_flag := True\<rparr>)
     = Some (Returned ((example_image_state (Some (Fin 0), Some (Fin 10), Some (Fin 0), Some (Fin 4))
          (Some (Fin 2), Some (Fin 5), Some (Fin 2)))\<lparr>during_zoom_sync_flag := True\<rparr>))
   \<and> set_axes_lim (notify_image 0 no_adjust)
      ((example_image_state (Some (Fin 0), Some (Fin 10), Some (Fin 0), Some (Fin 4))
          (Some (Fin 2), Some (Fin 5), Some (Fin 2)))\<lparr>during_zoom_sync_flag := True\<rparr>)
     = Some (Returned ((example_image_state (Some (Fin 0), Some (Fin 10), Some (Fin 0), Some (Fin 4))
          (Some (Fin 2), Some (Fin 5), Some (Fin 2)))\<lparr>during_zoom_sync_flag := True\<rparr>))
   \<and> set_zoom_radius_center no_adjust (notify_image (Suc 0) no_adjust)
      (example_image_state (Some (Fin 0), Some (Fin 10), Some (Fin 0), Some (Fin 4))
          (Some (Fin 2), Some (Fin 5), Some (Fin 2))) \<noteq> None"
proof -
  let ?t = "example_image_state (Some (Fin 0), Some (Fin 10), Some (Fin 0), Some (Fin 4))
          (Some (Fin 2), Some (Fin 5), Some (Fin 2))"
  have f: "during_zoom_sync_flag (?t\<lparr>during_zoom_sync_flag := True\<rparr>)" by simp
  from zoom_sync_no_reentry [of "?t\<lparr>during_zoom_sync_flag := True\<rparr>" no_adjust "notify_image 0 no_adjust" 0] f
  have a: "set_zoom_radius_center no_adjust (notify_image 0 no_adjust) (?t\<lparr>during_zoom_sync_flag := True\<rparr>)
             = Some (Returned (?t\<lparr>during_zoom_sync_flag := True\<rparr>))"
    "set_axes_lim (notify_image 0 no_adjust) (?t\<lparr>during_zoom_sync_flag := True\<rparr>)
             = Some (Returned (?t\<lparr>during_zoom_sync_flag := True\<rparr>))"
    by blast+
  from zoom_sync_no_reentry [of ?t no_adjust "notify_image 0 no_adjust" 0]
  have b: "set_zoom_radius_center no_adjust (notify_image (Suc 0) no_adjust) ?t \<noteq> None"
    by blast
  from a b show ?thesis by blast
qed

lemma py_abs_neg [simp]: "py_abs (py_neg r) = py_abs r"
  by (cases r) simp_all

lemma limits_of_assigned_explicit:
  "limits_of (assigned (a, b, c, d) s) =
     (if permitted s X_min then a else vals s X_min,
      if permitted s X_max then b else vals s X_max,
      if permitted s Y_min then c else vals s Y_min,
      if permitted s Y_max then d else vals s Y_max)"
  by (simp add: limits_of_def assigned_def)


lemma limits_of_assigned_cong:
  assumes "frozen_state s = frozen_state t" and "limits_of s = limits_of t"
  shows "limits_of (assigned lims s) = limits_of (assigned lims t)"
proof -
  obtain a b c d where l: "lims = (a, b, c, d)" by (cases lims)
  have v: "vals s X_min = vals t X_min" "vals s X_max = vals t X_max"
    "vals s Y_min = vals t Y_min" "vals s Y_max = vals t Y_max"
    using assms(2) by (simp_all add: limits_of_def)
  have p: "permitted s X_min = permitted t X_min" "permitted s X_max = permitted t X_max"
    "permitted s Y_min = permitted t Y_min" "permitted s Y_max = permitted t Y_max"
    using assms(1) v by (simp_all add: permitted_def)
  show ?thesis
    unfolding l limits_of_assigned_explicit p v ..
qed

lemma limits_of_flag [simp]: "limits_of (s\<lparr>during_zoom_sync_flag := b\<rparr>) = limits_of s"
  by (simp add: limits_of_def)

lemma limits_of_delay_enter [simp]: "limits_of (delay_enter ps s) = limits_of s"
  by (simp add: limits_of_def del: delay_enter.simps)

lemma limits_of_batch_assigned:
  fixes s :: image_state
  shows "limits_of (batch_assigned lims s) = limits_of (assigned lims (delay_enter [X_min, X_max, Y_min, Y_max] s))"
  by (simp add: limits_of_def del: delay_enter.simps)

lemma limits_of_batch_assigned_cong:
  fixes s t :: image_state
  assumes "frozen_state s = frozen_state t" and "limits_of s = limits_of t"
  shows "limits_of (batch_assigned lims s) = limits_of (batch_assigned lims t)"
proof -
  have "frozen_state (delay_enter [X_min, X_max, Y_min, Y_max] s) = frozen_state (delay_enter [X_min, X_max, Y_min, Y_max] t)"
    using assms(1) by (simp del: delay_enter.simps)
  moreover have "limits_of (delay_enter [X_min, X_max, Y_min, Y_max] s) = limits_of (delay_enter [X_min, X_max, Y_min, Y_max] t)"
    using assms(2) by (simp del: delay_enter.simps)
  ultimately show ?thesis
    unfolding limits_of_batch_assigned by (rule limits_of_assigned_cong)
qed


lemma assigned_zoom_radius [simp]:
  "vals (assigned lims s) Zoom_radius = vals s Zoom_radius"
  by (cases lims) (simp add: assigned_def)

lemma batch_assigned_zoom_radius [simp]:
  fixes s :: image_state
  shows "vals (batch_assigned lims s) Zoom_radius = vals s Zoom_radius"
  by (simp del: delay_enter.simps)

lemma set_zoom_radius_center_related:
  assumes s: "\<not> during_zoom_sync_flag s" "viewer s \<noteq> None"
    and t: "\<not> during_zoom_sync_flag t" "viewer t \<noteq> None"
    and rel: "frozen_state s = frozen_state t" "limits_of s = limits_of t"
      "zoom_circle_in_pixels s = zoom_circle_in_pixels t"
  shows "\<exists>out out'. set_zoom_radius_center adj (notify_image (Suc n) adj) s = Some out
      \<and> set_zoom_radius_center adj (notify_image (Suc n) adj) t = Some out'
      \<and> limits_of (final out) = limits_of (final out')
      \<and> raised_error out = raised_error out'
      \<and> vals (final out) Zoom_radius = vals s Zoom_radius
      \<and> vals (final out') Zoom_radius = vals t Zoom_radius"
proof (cases "zoom_circle_in_pixels t")
  case (Inl e)
  with rel show ?thesis
    unfolding set_zoom_radius_center_image [OF s] set_zoom_radius_center_image [OF t]
    by (simp add: raised_error_def)
next
  case (Inr c)
  obtain cx cy r where c: "c = (cx, cy, r)" by (cases c)
  show ?thesis
  proof (cases "zoom_box cx cy r")
    case (Inl e)
    with Inr c rel show ?thesis
      unfolding set_zoom_radius_center_image [OF s] set_zoom_radius_center_image [OF t]
      by (simp add: raised_error_def)
  next
    case box: (Inr lims)
    let ?A = "assigned lims (s\<lparr>during_zoom_sync_flag := True\<rparr>)"
    let ?B = "assigned lims (t\<lparr>during_zoom_sync_flag := True\<rparr>)"
    have AB: "limits_of ?A = limits_of ?B"
      using rel by (intro limits_of_assigned_cong) simp_all
    have fz: "frozen_state ?A = frozen_state ?B" using rel by simp
    show ?thesis
    proof (cases "adj (limits_of ?B)")
      case (Inl e)
      with Inr c box rel AB show ?thesis
        unfolding set_zoom_radius_center_image [OF s] set_zoom_radius_center_image [OF t]
        by (simp add: raised_error_def)
    next
      case adj: (Inr lo)
      show ?thesis
      proof (cases lo)
        case None
        with adj Inr c box rel AB show ?thesis
          unfolding set_zoom_radius_center_image [OF s] set_zoom_radius_center_image [OF t]
          by (simp add: raised_error_def)
      next
        case (Some l)
        have "limits_of (batch_assigned l ?A) = limits_of (batch_assigned l ?B)"
          using fz AB by (rule limits_of_batch_assigned_cong)
        with Some adj Inr c box rel AB show ?thesis
          unfolding set_zoom_radius_center_image [OF s] set_zoom_radius_center_image [OF t]
          by (simp add: raised_error_def del: batch_assigned_simps)
      qed
    qed
  qed
qed



text \<open>
  Claim C10. For an attached image state that is not linked by WCS and not inside a zoom
  synchronisation, and any radius \<open>r\<close>: \<open>set_zoom_radius_center\<close> returns or raises alike
  and leaves the same four limits whether \<open>zoom_radius\<close> is \<open>r\<close> or \<open>-r\<close>, and
  \<open>zoom_radius\<close> itself is left as it was, \<open>r\<close> in one run and \<open>-r\<close> in the other.
\<close>

theorem zoom_radius_sign_irrelevant:
  assumes "viewer s \<noteq> None" and "\<not> linked_by_wcs s" and "\<not> during_zoom_sync_flag s"
  shows "\<exists>out out'.
      set_zoom_radius_center adj (notify_image (Suc n) adj) (s\<lparr>vals := (vals s)(Zoom_radius := Some r)\<rparr>) = Some out
    \<and> set_zoom_radius_center adj (notify_image (Suc n) adj) (s\<lparr>vals := (vals s)(Zoom_radius := Some (py_neg r))\<rparr>) = Some out'
    \<and> limits_of (final out) = limits_of (final out')
    \<and> raised_error out = raised_error out'
    \<and> vals (final out) Zoom_radius = Some r
    \<and> vals (final out') Zoom_radius = Some (py_neg r)"
proof -
  let ?s = "s\<lparr>vals := (vals s)(Zoom_radius := Some r)\<rparr>"
  let ?t = "s\<lparr>vals := (vals s)(Zoom_radius := Some (py_neg r))\<rparr>"
  have a: "\<not> during_zoom_sync_flag ?s" "viewer ?s \<noteq> None" using assms by simp_all
  have b: "\<not> during_zoom_sync_flag ?t" "viewer ?t \<noteq> None" using assms by simp_all
  have rel: "frozen_state ?s = frozen_state ?t" "limits_of ?s = limits_of ?t"
    "zoom_circle_in_pixels ?s = zoom_circle_in_pixels ?t"
    using assms(2) by (simp_all add: limits_of_def zoom_circle_in_pixels_def as_float_def bind_err_def)
  from set_zoom_radius_center_related [OF a b rel, of adj n] show ?thesis by simp
qed

theorem zoom_radius_sign_irrelevant_witness:
  "value_after (set_zoom_radius_center no_adjust (notify_image (Suc 0) no_adjust)
       ((example_image_state (None, None, None, None) (None, Some (Fin 5), Some (Fin 2)))
          \<lparr>vals := (vals (example_image_state (None, None, None, None) (None, Some (Fin 5), Some (Fin 2))))
                     (Zoom_radius := Some (py_neg (Fin 2)))\<rparr>)) X_min
     = Some (Some (Fin 3))
   \<and> value_after (set_zoom_radius_center no_adjust (notify_image (Suc 0) no_adjust)
       ((example_image_state (None, None, None, None) (None, Some (Fin 5), Some (Fin 2)))
          \<lparr>vals := (vals (example_image_state (None, None, None, None) (None, Some (Fin 5), Some (Fin 2))))
                     (Zoom_radius := Some (py_neg (Fin 2)))\<rparr>)) Zoom_radius
     = Some (Some (Fin (- 2)))"
proof -
  let ?e = "example_image_state (None, None, None, None) (None, Some (Fin 5), Some (Fin 2))"
  let ?s = "?e\<lparr>vals := (vals ?e)(Zoom_radius := Some (Fin 2))\<rparr>"
  let ?t = "?e\<lparr>vals := (vals ?e)(Zoom_radius := Some (py_neg (Fin 2)))\<rparr>"
  let ?lims = "(Some (Fin 3), Some (Fin 7), Some (Fin 0), Some (Fin 4))"
  have e: "viewer ?e \<noteq> None" "\<not> linked_by_wcs ?e" "\<not> during_zoom_sync_flag ?e"
    by (simp_all add: image_example_eval)
  have s: "\<not> during_zoom_sync_flag ?s" "viewer ?s \<noteq> None"
    by (simp_all add: image_example_eval)
  have circle: "zoom_circle_in_pixels ?s = Inr (Some (Fin 5), Some (Fin 2), Fin 2)"
    by (simp add: zoom_circle_in_pixels_def bind_err_def as_float_def image_example_eval)
  have box: "zoom_box (Some (Fin 5)) (Some (Fin 2)) (Fin 2) = Inr ?lims"
    by (simp add: zoom_box_def bind_err_def as_float_def py_sub_def)
  have p: "permitted (?s\<lparr>during_zoom_sync_flag := True\<rparr>) X_min" "permitted (?s\<lparr>during_zoom_sync_flag := True\<rparr>) X_max"
    "permitted (?s\<lparr>during_zoom_sync_flag := True\<rparr>) Y_min" "permitted (?s\<lparr>during_zoom_sync_flag := True\<rparr>) Y_max"
    by (simp_all add: permitted_def image_example_eval)
  have direct: "limits_of (final (the (set_zoom_radius_center no_adjust (notify_image (Suc 0) no_adjust) ?s))) = ?lims"
    unfolding set_zoom_radius_center_image [OF s]
    using circle box limits_of_assigned [OF p, of ?lims]
    by (simp add: no_adjust_def)
  from zoom_radius_sign_irrelevant [OF e, of no_adjust 0 "Fin 2"] obtain out out' where
    o: "set_zoom_radius_center no_adjust (notify_image (Suc 0) no_adjust) ?s = Some out"
       "set_zoom_radius_center no_adjust (notify_image (Suc 0) no_adjust) ?t = Some out'"
       "limits_of (final out) = limits_of (final out')"
       "vals (final out') Zoom_radius = Some (py_neg (Fin 2))"
    by blast
  have "limits_of (final out') = ?lims" using direct o(1,3) by simp
  then show ?thesis using o(2,4) by (simp add: value_after_def limits_of_def)
qed

lemma get_reset_limits_wcs_loop_no_coords:
  "list_all (\<lambda>l. layer_visible l \<longrightarrow>
       (case find (\<lambda>x. data_label x = data_label (layer_data l)) dc of None \<Rightarrow> False | Some d \<Rightarrow> coords d = None)) ls
   \<Longrightarrow> get_reset_limits_wcs_loop dc ref_wcs raw ls acc = Inr acc"
proof (induction ls)
  case Nil
  then show ?case by simp
next
  case (Cons l ls)
  obtain b x0 x1 y0 y1 where acc: "acc = (b, x0, x1, y0, y1)" by (cases acc)
  from Cons show ?case
    unfolding acc by (auto split: option.splits)
qed

lemma Max_insert_max:
  fixes a b :: real
  assumes "finite S"
  shows "Max (insert (max a b) S) = Max (insert a (insert b S))"
  using assms by (cases "S = {}") (simp_all add: max.assoc)

lemma fold_py_max_Fin:
  "fold (\<lambda>l acc. py_max acc (Fin (f l))) ls (Fin a) = Fin (Max (insert a (f ` set ls)))"
proof (induction ls arbitrary: a)
  case Nil
  then show ?case by simp
next
  case (Cons l ls)
  have "py_max (Fin a) (Fin (f l)) = Fin (max a (f l))"
    by (simp add: py_max_def max_def)
  moreover have "Max (insert (max a (f l)) (f ` set ls)) = Max (insert a (insert (f l) (f ` set ls)))"
    by (rule Max_insert_max) simp
  ultimately show ?case using Cons.IH [of "max a (f l)"] by simp
qed

lemma fold_py_max_NInf:
  "fold (\<lambda>l acc. py_max acc (Fin (f l))) ls NInf = (if ls = [] then NInf else Fin (Max (f ` set ls)))"
proof (cases ls)
  case Nil
  then show ?thesis by simp
next
  case (Cons l ls')
  have "py_max NInf (Fin (f l)) = Fin (f l)" by (simp add: py_max_def)
  then show ?thesis using Cons fold_py_max_Fin [of f ls' "f l"] by simp
qed

lemma shape_along_error: "shape_along tag l = Inl e \<Longrightarrow> e = IndexError"
  by (auto simp: shape_along_def bind_err_def index_def split: sum.splits if_splits)

lemma pixel_loop_skip:
  "\<not> (layer_visible l \<and> length (shape (layer_data l)) \<noteq> 1) \<Longrightarrow>
   get_reset_limits_pixel_loop (l # ls) (a, b) = get_reset_limits_pixel_loop ls (a, b)"
  by simp

lemma pixel_loop_take:
  assumes "layer_visible l" "length (shape (layer_data l)) \<noteq> 1"
    and "shape_along ''[x]'' l = Inr nx" "shape_along ''[y]'' l = Inr ny"
  shows "get_reset_limits_pixel_loop (l # ls) (a, b) =
     get_reset_limits_pixel_loop ls (py_max a (Fin (real nx - 1/2)), py_max b (Fin (real ny - 1/2)))"
proof -
  from assms(3) obtain cx where cx:
    "index (filter (\<lambda>comp. endswith (label comp) ''[x]'') (pixel_component_ids l)) 0 = Inr cx"
    "index (shape (layer_data l)) (axis cx) = Inr nx"
    unfolding shape_along_def bind_err_def by (simp split: sum.splits)
  from assms(4) obtain cy where cy:
    "index (filter (\<lambda>comp. endswith (label comp) ''[y]'') (pixel_component_ids l)) 0 = Inr cy"
    "index (shape (layer_data l)) (axis cy) = Inr ny"
    unfolding shape_along_def bind_err_def by (simp split: sum.splits)
  show ?thesis
    using assms(1,2) cx cy by (simp add: bind_err_def)
qed


lemma get_reset_limits_pixel_loop_fold:
  assumes "list_all (\<lambda>l. shape_along ''[x]'' l \<noteq> Inl IndexError \<and> shape_along ''[y]'' l \<noteq> Inl IndexError)
             (filter (\<lambda>l. layer_visible l \<and> length (shape (layer_data l)) \<noteq> 1) ls)"
  shows "get_reset_limits_pixel_loop ls (x_max, y_max) =
     Inr (fold (\<lambda>l acc. py_max acc (Fin (real (size_along ''[x]'' l) - 1/2)))
            (filter (\<lambda>l. layer_visible l \<and> length (shape (layer_data l)) \<noteq> 1) ls) x_max,
          fold (\<lambda>l acc. py_max acc (Fin (real (size_along ''[y]'' l) - 1/2)))
            (filter (\<lambda>l. layer_visible l \<and> length (shape (layer_data l)) \<noteq> 1) ls) y_max)"
  using assms
proof (induction ls arbitrary: x_max y_max)
  case Nil
  then show ?case by simp
next
  case (Cons l ls)
  show ?case
  proof (cases "layer_visible l \<and> length (shape (layer_data l)) \<noteq> 1")
    case False
    then have f: "filter (\<lambda>l. layer_visible l \<and> length (shape (layer_data l)) \<noteq> 1) (l # ls)
        = filter (\<lambda>l. layer_visible l \<and> length (shape (layer_data l)) \<noteq> 1) ls"
      by simp
    show ?thesis
      unfolding pixel_loop_skip [OF False] f
      using Cons.prems unfolding f by (rule Cons.IH)
  next
    case True
    then have f: "filter (\<lambda>l. layer_visible l \<and> length (shape (layer_data l)) \<noteq> 1) (l # ls)
        = l # filter (\<lambda>l. layer_visible l \<and> length (shape (layer_data l)) \<noteq> 1) ls"
      by simp
    from Cons.prems have ok: "shape_along ''[x]'' l \<noteq> Inl IndexError" "shape_along ''[y]'' l \<noteq> Inl IndexError"
      and rest: "list_all (\<lambda>l. shape_along ''[x]'' l \<noteq> Inl IndexError \<and> shape_along ''[y]'' l \<noteq> Inl IndexError)
             (filter (\<lambda>l. layer_visible l \<and> length (shape (layer_data l)) \<noteq> 1) ls)"
      unfolding f by simp_all
    obtain nx where nx: "shape_along ''[x]'' l = Inr nx"
      using ok(1) shape_along_error [of "''[x]''" l] by (cases "shape_along ''[x]'' l") auto
    obtain ny where ny: "shape_along ''[y]'' l = Inr ny"
      using ok(2) shape_along_error [of "''[y]''" l] by (cases "shape_along ''[y]'' l") auto
    have sz: "size_along ''[x]'' l = nx" "size_along ''[y]'' l = ny"
      using nx ny by (simp_all add: size_along_def)
    from True have v: "layer_visible l" "length (shape (layer_data l)) \<noteq> 1" by simp_all
    show ?thesis
      unfolding pixel_loop_take [OF v nx ny] f Cons.IH [OF rest]
      by (simp add: sz)
  qed
qed


lemma get_reset_limits_wcs_off:
  assumes "wcs_not_applicable s"
  shows "get_reset_limits s raw =
     bind_err (get_reset_limits_pixel_loop (image_layers s) (NInf, NInf))
       (\<lambda>(x_max, y_max). Inr (Fin (- 1/2), x_max, Fin (- 1/2), y_max))"
proof (cases "linked_by_wcs s")
  case False
  then show ?thesis by (simp add: get_reset_limits_def bind_err_def)
next
  case True
  with assms obtain r where r: "image_reference_data s = Some r" "coords r = None \<or> no_layer_has_coords s"
    by (auto simp: wcs_not_applicable_def split: option.splits)
  show ?thesis
  proof (cases "coords r")
    case None
    with True r show ?thesis by (simp add: get_reset_limits_def bind_err_def)
  next
    case (Some w)
    with r have "no_layer_has_coords s" by simp
    then have "get_reset_limits_wcs_loop (data_collection s) w raw (image_layers s) (False, PInf, NInf, PInf, NInf)
        = Inr (False, PInf, NInf, PInf, NInf)"
      unfolding no_layer_has_coords_def by (rule get_reset_limits_wcs_loop_no_coords)
    with True r Some show ?thesis by (simp add: get_reset_limits_def bind_err_def)
  qed
qed

text \<open>
  Claim C8. When the WCS-based computation does not apply (and every eligible layer has
  its x and y pixel components), \<open>get_reset_limits\<close> returns \<open>x_min = y_min = -0.5\<close>, and
  for \<open>x_max\<close> and \<open>y_max\<close> the greatest, over the visible layers that are not
  one-dimensional, of the size along the pixel axis less one half, starting from negative
  infinity: without an eligible layer both upper bounds are not finite.
\<close>

theorem get_reset_limits_pixel_fallback:
  assumes "wcs_not_applicable s" and "pixel_axes_found s"
  shows "get_reset_limits s return_as_world =
           Inr (Fin (- 1/2), pixel_upper_bound ''[x]'' (eligible_layers s),
                Fin (- 1/2), pixel_upper_bound ''[y]'' (eligible_layers s))
       \<and> (eligible_layers s = [] \<longrightarrow>
            \<not> isfinite (pixel_upper_bound ''[x]'' (eligible_layers s))
            \<and> \<not> isfinite (pixel_upper_bound ''[y]'' (eligible_layers s)))"
proof
  have "get_reset_limits_pixel_loop (image_layers s) (NInf, NInf) =
     Inr (fold (\<lambda>l acc. py_max acc (Fin (real (size_along ''[x]'' l) - 1/2))) (eligible_layers s) NInf,
          fold (\<lambda>l acc. py_max acc (Fin (real (size_along ''[y]'' l) - 1/2))) (eligible_layers s) NInf)"
    unfolding eligible_layers_def
    using assms(2) unfolding pixel_axes_found_def eligible_layers_def
    by (rule get_reset_limits_pixel_loop_fold)
  then show "get_reset_limits s return_as_world =
           Inr (Fin (- 1/2), pixel_upper_bound ''[x]'' (eligible_layers s),
                Fin (- 1/2), pixel_upper_bound ''[y]'' (eligible_layers s))"
    unfolding get_reset_limits_wcs_off [OF assms(1)] pixel_upper_bound_def fold_py_max_NInf
    by (simp add: bind_err_def)
next
  show "eligible_layers s = [] \<longrightarrow>
            \<not> isfinite (pixel_upper_bound ''[x]'' (eligible_layers s))
            \<and> \<not> isfinite (pixel_upper_bound ''[y]'' (eligible_layers s))"
    by (simp add: pixel_upper_bound_def)
qed

lemma endswith_examples [simp]:
  "endswith ''Pixel Axis 0 [y]'' ''[y]''" "endswith ''Pixel Axis 1 [x]'' ''[x]''"
  "\<not> endswith ''Pixel Axis 0 [y]'' ''[x]''" "\<not> endswith ''Pixel Axis 1 [x]'' ''[y]''"
  by (simp_all add: endswith_def)

lemma shape_along_example:
  "shape_along ''[x]'' (example_image_layer vis [ny, nx]) = Inr nx"
  "shape_along ''[y]'' (example_image_layer vis [ny, nx]) = Inr ny"
  by (simp_all add: shape_along_def example_image_layer_def bind_err_def index_def)

theorem get_reset_limits_pixel_fallback_witness:
  "get_reset_limits
     ((example_image_state (None, None, None, None) (Some (Fin 1), Some (Fin 0), Some (Fin 0)))
        \<lparr>image_layers := [example_image_layer True [20, 30], example_image_layer False [50, 60],
                          example_image_layer True [40], example_image_layer True [10, 45]]\<rparr>) False
     = Inr (Fin (- 1/2), Fin (89/2), Fin (- 1/2), Fin (39/2))
   \<and> get_reset_limits
     (example_image_state (None, None, None, None) (Some (Fin 1), Some (Fin 0), Some (Fin 0))) False
     = Inr (Fin (- 1/2), NInf, Fin (- 1/2), NInf)"
proof -
  let ?e = "example_image_state (None, None, None, None) (Some (Fin 1), Some (Fin 0), Some (Fin 0))"
  let ?s = "?e\<lparr>image_layers := [example_image_layer True [20, 30], example_image_layer False [50, 60],
                          example_image_layer True [40], example_image_layer True [10, 45]]\<rparr>"
  have el: "eligible_layers ?s = [example_image_layer True [20, 30], example_image_layer True [10, 45]]"
    by (simp add: eligible_layers_def example_image_layer_def)
  have w: "wcs_not_applicable ?s" by (simp add: wcs_not_applicable_def example_image_state_def)
  have px: "pixel_axes_found ?s"
    unfolding pixel_axes_found_def el by (simp add: shape_along_example)
  have a: "get_reset_limits ?s False = Inr (Fin (- 1/2), Fin (89/2), Fin (- 1/2), Fin (39/2))"
    using get_reset_limits_pixel_fallback [OF w px, of False]
    unfolding el by (simp add: pixel_upper_bound_def size_along_def shape_along_example)
  have el0: "eligible_layers ?e = []"
    by (simp add: eligible_layers_def example_image_state_def)
  have w0: "wcs_not_applicable ?e" by (simp add: wcs_not_applicable_def example_image_state_def)
  have px0: "pixel_axes_found ?e"
    unfolding pixel_axes_found_def el0 by simp
  have b: "get_reset_limits ?e False = Inr (Fin (- 1/2), NInf, Fin (- 1/2), NInf)"
    using get_reset_limits_pixel_fallback [OF w0 px0, of False]
    unfolding el0 by (simp add: pixel_upper_bound_def)
  from a b show ?thesis by blast
qed

end
